theory Spec2Isabelle
  imports Complex_Main "HOL-Library.Log_Nat"
begin

section \<open>InvestingChecker: the decision engine of \<open>InvestingChecker.py\<close>\<close>

text \<open>
  Numbers. There are two levels. The functions that work on the provider's payloads
  (\<open>get_current_price\<close>, \<open>get_fundamental_score\<close>, \<open>evaluate_stock_for_trade\<close>), the
  composite chance and the final decision are modelled over \<^typ>\<open>real\<close>: the numbers of
  the JSON payloads and the floats computed from them are idealised, and rounding,
  infinities and NaN are left out there. The target price and the stop-loss are read with
  \<open>float(input())\<close>, which accepts \<open>nan\<close> and \<open>inf\<close> as well as every decimal, so the
  two functions that compute with them, \<open>calculate_technical_chance_of_winning\<close> and
  \<open>calculate_expectancy\<close>, are modelled on IEEE 754 binary64 values (type \<open>f64\<close>):
  every operation rounds to nearest, ties to even, with gradual underflow and overflow to
  infinity, and follows the rules for infinities and NaN. The technical chance is
  modelled at both levels: \<open>calculate_technical_chance_of_winning\<close> is the real-valued
  one, which the composite chance calls, and
  \<open>calculate_technical_chance_of_winning_f64\<close> the one on floats. The decimal literals of the source (\<open>0.5\<close>, \<open>0.3\<close>,
  \<open>0.7\<close>, \<open>0.55\<close>) are the rationals they denote; \<open>0.5\<close>, \<open>0\<close> and \<open>1\<close> are doubles.

  Errors. Every operation of the source that can raise is a branch of the model: a
  comparison or subtraction with \<open>None\<close> raises \<open>TypeError\<close>, a true division by zero
  raises \<open>ZeroDivisionError\<close>. A function that can raise returns \<open>py_error + 'a\<close>,
  with \<open>Inl\<close> the exception.

  Effects. The \<open>print\<close> calls of the source only log; they are left out. The HTTP requests
  are not modelled: the two fetching functions take the outcome of the request as their
  argument (type \<open>response\<close>), in place of the ticker and the API key that only build
  the URL.
\<close>

subsection \<open>Exceptions and the operations that raise them\<close>

datatype py_error = TypeError | ZeroDivisionError

definition then_res :: "py_error + 'a \<Rightarrow> ('a \<Rightarrow> py_error + 'b) \<Rightarrow> py_error + 'b" where
  "then_res m f = (case m of Inl e \<Rightarrow> Inl e | Inr v \<Rightarrow> f v)"

text \<open>A value read with \<open>dict.get\<close> is a number, or \<open>None\<close> when the key is absent or
  null; arithmetic and ordering on \<open>None\<close> raise \<open>TypeError\<close>.\<close>

definition as_number :: "real option \<Rightarrow> py_error + real" where
  "as_number v = (case v of None \<Rightarrow> Inl TypeError | Some x \<Rightarrow> Inr x)"

text \<open>Python's \<open>a / b\<close> on numbers.\<close>

definition py_truediv :: "real \<Rightarrow> real \<Rightarrow> py_error + real" where
  "py_truediv a b = (if b = 0 then Inl ZeroDivisionError else Inr (a / b))"

text \<open>Python's truth value of a number-or-\<open>None\<close>: \<open>not v\<close> holds for \<open>None\<close> and for zero.\<close>

definition py_not :: "real option \<Rightarrow> bool" where
  "py_not v = (case v of None \<Rightarrow> True | Some x \<Rightarrow> x = 0)"

subsection \<open>Payloads of the market-data provider\<close>

text \<open>The outcome of \<open>requests.get\<close>, \<open>raise_for_status\<close> and \<open>response.json()\<close>:
  an exception in any of them, a JSON \<open>null\<close>, or a JSON array of objects.\<close>

datatype 'a response = RequestFailed | JsonNull | JsonList "'a list"

record quote =
  price :: "real option"
  marketCap :: "real option"
  dayHigh :: "real option"
  dayLow :: "real option"
  priceAvg50 :: "real option"
  priceAvg200 :: "real option"

record income_statement =
  revenue :: "real option"
  netIncome :: "real option"

subsection \<open>\<open>get_current_price\<close>\<close>

text \<open>\<open>float(None)\<close> raises inside the \<open>try\<close>, so a quote without a price gives
  \<open>None\<close>; the other five fields are passed on as \<open>dict.get\<close> returned them.\<close>

definition get_current_price ::
  "quote response \<Rightarrow> (real \<times> real option \<times> real option \<times> real option \<times> real option \<times> real option) option"
where
  "get_current_price resp =
     (case resp of
        RequestFailed \<Rightarrow> None
      | JsonNull \<Rightarrow> None
      | JsonList data \<Rightarrow>
          (case data of
             [] \<Rightarrow> None
           | stock_data # _ \<Rightarrow>
               (case price stock_data of
                  None \<Rightarrow> None
                | Some current_price \<Rightarrow>
                    Some (current_price, marketCap stock_data, dayHigh stock_data,
                          dayLow stock_data, priceAvg50 stock_data, priceAvg200 stock_data))))"

subsection \<open>\<open>get_fundamental_score\<close>\<close>

text \<open>The body of the \<open>try\<close> block, from the parsed payload on.\<close>

definition fundamental_score_body :: "income_statement list \<Rightarrow> py_error + real" where
  "fundamental_score_body data =
     (if data = [] \<or> length data < 2 then Inr (1/2)
      else
        let latest = data ! 0;
            previous = data ! 1;
            revenue_latest = revenue latest;
            revenue_previous = revenue previous;
            net_income_latest = netIncome latest
        in
          if py_not revenue_latest \<or> py_not revenue_previous \<or> revenue_previous = Some 0
               \<or> net_income_latest = None
          then Inr (1/2)
          else
            then_res (as_number revenue_latest) (\<lambda>rl.
            then_res (as_number revenue_previous) (\<lambda>rp.
            then_res (py_truediv (rl - rp) rp) (\<lambda>revenue_growth.
            then_res (if rl = 0 then Inr 0
                      else then_res (as_number net_income_latest) (\<lambda>ni. py_truediv ni rl))
              (\<lambda>profit_margin.
                 let normalized_profit_margin = max 0 (min 1 profit_margin);
                     normalized_revenue_growth = max 0 (min 1 revenue_growth)
                 in Inr ((normalized_profit_margin + normalized_revenue_growth) / 2))))))"

text \<open>The \<open>except Exception\<close> handler turns every exception into the neutral score.\<close>

definition get_fundamental_score :: "income_statement response \<Rightarrow> real" where
  "get_fundamental_score resp =
     (case resp of
        RequestFailed \<Rightarrow> 1/2
      | JsonNull \<Rightarrow> 1/2
      | JsonList data \<Rightarrow>
          (case fundamental_score_body data of Inl e \<Rightarrow> 1/2 | Inr score \<Rightarrow> score))"

subsection \<open>Chance of winning, expectancy and the final decision\<close>

definition calculate_technical_chance_of_winning :: "real \<Rightarrow> real \<Rightarrow> real \<Rightarrow> py_error + real" where
  "calculate_technical_chance_of_winning current_price target_price stop_loss =
     (let stop_loss_distance = \<bar>current_price - stop_loss\<bar>;
          target_distance = \<bar>target_price - current_price\<bar>
      in if stop_loss_distance + target_distance = 0 then Inr (1/2)
         else py_truediv stop_loss_distance (stop_loss_distance + target_distance))"


text \<open>\<open>calculate_expectancy\<close> computes with the target price and the stop-loss as they
  were typed. It is modelled on floats, in the section on binary64 arithmetic, where the
  technical chance has its float model too.\<close>

text \<open>The thresholds are explicit arguments; the source's defaults are
  \<open>chance_threshold = 0.55\<close> and \<open>expectancy_threshold = 0\<close>.\<close>

definition final_decision :: "real \<Rightarrow> real \<Rightarrow> real \<Rightarrow> real \<Rightarrow> string" where
  "final_decision composite_chance expectancy chance_threshold expectancy_threshold =
     (if composite_chance \<ge> chance_threshold \<and> expectancy > expectancy_threshold then ''Buy''
      else if composite_chance < chance_threshold \<and> expectancy < expectancy_threshold then ''Sell''
      else ''Hold'')"

subsection \<open>\<open>evaluate_stock_for_trade\<close>\<close>

text \<open>The daily-range ratio of the source (the \<open>if\<close>/\<open>else\<close> that assigns
  \<open>price_to_day_low_ratio\<close>).\<close>

definition price_to_day_low_ratio :: "real \<Rightarrow> real option \<Rightarrow> real option \<Rightarrow> py_error + real" where
  "price_to_day_low_ratio current_price day_high day_low =
     then_res (as_number day_high) (\<lambda>h.
     then_res (as_number day_low) (\<lambda>l.
       if h - l \<noteq> 0 then py_truediv (current_price - l) (h - l) else Inr (1/2)))"

definition evaluate_stock_for_trade ::
  "real \<Rightarrow> real option \<Rightarrow> real option \<Rightarrow> real option \<Rightarrow> real option \<Rightarrow> real option
     \<Rightarrow> py_error + string"
where
  "evaluate_stock_for_trade current_price market_cap day_high day_low price_avg50 price_avg200 =
     then_res (as_number market_cap) (\<lambda>mc.
       let r1 = (if mc < 1000000000 then ''Sell'' else ''Hold'') in
     then_res (as_number price_avg50) (\<lambda>avg50.
       let r2 = (if current_price > avg50 then r1 else ''Sell'') in
     then_res (as_number price_avg200) (\<lambda>avg200.
       let r3 = (if current_price > avg200 then r2 else ''Sell'') in
     then_res (price_to_day_low_ratio current_price day_high day_low) (\<lambda>ratio.
       Inr (if ratio < 0.3 then ''Buy'' else if ratio > 0.7 then ''Sell'' else r3)))))"

subsection \<open>The rule cascade, as the specification words it\<close>

text \<open>
  The specification describes the technical signal evaluator as four rules folded
  left-to-right over the current recommendation, starting from "Hold". The definitions
  below follow the specification's words (section 4.5 and the design notes), over quote
  fields that are numbers; they are compared with \<open>evaluate_stock_for_trade\<close> further
  down.
\<close>

definition spec_range_ratio :: "real \<Rightarrow> real \<Rightarrow> real \<Rightarrow> real" where
  "spec_range_ratio current day_high day_low =
     (if day_high - day_low = 0 then 1/2 else (current - day_low) / (day_high - day_low))"

definition spec_market_cap_rule :: "real \<Rightarrow> string \<Rightarrow> string" where
  "spec_market_cap_rule market_cap label = (if market_cap < 1000000000 then ''Sell'' else label)"

definition spec_average_rule :: "real \<Rightarrow> real \<Rightarrow> string \<Rightarrow> string" where
  "spec_average_rule current average label = (if current \<le> average then ''Sell'' else label)"

definition spec_day_range_rule :: "real \<Rightarrow> string \<Rightarrow> string" where
  "spec_day_range_rule range_ratio label =
     (if range_ratio < 0.3 then ''Buy'' else if range_ratio > 0.7 then ''Sell'' else label)"

definition spec_rule_cascade ::
  "real \<Rightarrow> real \<Rightarrow> real \<Rightarrow> real \<Rightarrow> real \<Rightarrow> real \<Rightarrow> (string \<Rightarrow> string) list"
where
  "spec_rule_cascade current market_cap day_high day_low avg50 avg200 =
     [spec_market_cap_rule market_cap,
      spec_average_rule current avg50,
      spec_average_rule current avg200,
      spec_day_range_rule (spec_range_ratio current day_high day_low)]"

definition spec_technical_recommendation ::
  "real \<Rightarrow> real \<Rightarrow> real \<Rightarrow> real \<Rightarrow> real \<Rightarrow> real \<Rightarrow> string"
where
  "spec_technical_recommendation current market_cap day_high day_low avg50 avg200 =
     foldl (\<lambda>label rule. rule label) ''Hold''
       (spec_rule_cascade current market_cap day_high day_low avg50 avg200)"

section \<open>Binary64 arithmetic\<close>

text \<open>
  Python's \<open>float\<close> is the IEEE 754 binary64 format: 53 bits of significand, exponents
  from -1022 to 1023, subnormal numbers down to \<open>2 powi (- 1074)\<close>, two infinities and NaN.
  Each of \<open>+\<close>, \<open>-\<close>, \<open>*\<close>, \<open>/\<close> returns the exact result rounded to the nearest
  double, ties going to the double with the even significand.
\<close>

subsection \<open>Rounding a real number\<close>

text \<open>
  \<open>round_half_even\<close> is the nearest integer, ties to even. \<open>binade x\<close> is the exponent
  \<open>e\<close> with \<open>2 powi e \<le> |x| < 2 powi (e + 1)\<close> (lemma \<open>binade_bounds\<close>), computed from
  the bit length of the integer part of \<open>|x|\<close> or of \<open>1 / |x|\<close>. \<open>ulp x\<close> is the distance
  between the doubles around \<open>x\<close>: 52 binary places below the leading bit, and never below
  \<open>2 powi (- 1074)\<close>, the spacing of the subnormal numbers. \<open>round_real\<close> rounds to the
  nearest multiple of \<open>ulp x\<close>; it does not know of overflow.
\<close>

definition round_half_even :: "real \<Rightarrow> int" where
  "round_half_even y =
     (let n = \<lfloor>y\<rfloor>; r = y - of_int n
      in if r < 1/2 then n else if 1/2 < r then n + 1 else if even n then n else n + 1)"

definition binade :: "real \<Rightarrow> int" where
  "binade x = (if 1 \<le> \<bar>x\<bar> then bitlen \<lfloor>\<bar>x\<bar>\<rfloor> - 1 else - bitlen (\<lceil>1 / \<bar>x\<bar>\<rceil> - 1))"

definition ulp :: "real \<Rightarrow> real" where
  "ulp x = 2 powi (max (binade x) (- 1022) - 52)"

definition round_real :: "real \<Rightarrow> real" where
  "round_real x = (if x = 0 then 0 else of_int (round_half_even (x / ulp x)) * ulp x)"

subsection \<open>Values and operations\<close>

text \<open>
  A float is a finite number, an infinity or NaN. The sign of zero is not recorded:
  \<open>0.0\<close> and \<open>-0.0\<close> are equal for \<open>==\<close>, \<open><\<close> and \<open>abs\<close>, a product or a sum with
  either gives the same number up to that sign, and a division by either raises
  \<open>ZeroDivisionError\<close> in Python. The carrier of \<open>Finite\<close> is \<^typ>\<open>real\<close>; \<open>is_f64\<close> says that
  a value is a double, and every operation returns one (lemmas \<open>is_f64_round\<close>,
  \<open>is_f64_add\<close>). \<open>max_f64\<close> is the largest finite double; a result that rounds beyond
  it is an infinity.

  The operations follow IEEE 754: NaN propagates, \<open>inf - inf\<close> and \<open>0 * inf\<close> are NaN, a
  finite number divided by an infinity is zero, \<open>inf / inf\<close> is NaN. Python's \<open>/\<close> tests
  the divisor first and raises \<open>ZeroDivisionError\<close> when it is zero, whatever the dividend.
  \<open>f64_eq\<close> and \<open>f64_le\<close> are \<open>==\<close> and \<open><=\<close>: false whenever an operand is NaN.

  \<open>calculate_technical_chance_of_winning_f64\<close> and \<open>calculate_expectancy\<close> are the
  two source functions, operation by operation; the integer literals \<open>0\<close> and \<open>1\<close> of the
  source are converted to the floats \<open>0.0\<close> and \<open>1.0\<close> by the operation they enter.
\<close>

datatype f64 = Finite real | PosInf | NegInf | NaN

definition max_f64 :: real where
  "max_f64 = (2 ^ 53 - 1) * 2 ^ 971"

definition round_f64 :: "real \<Rightarrow> f64" where
  "round_f64 x =
     (let r = round_real x
      in if max_f64 < r then PosInf else if r < - max_f64 then NegInf else Finite r)"

fun f64_neg :: "f64 \<Rightarrow> f64" where
  "f64_neg (Finite x) = Finite (- x)"
| "f64_neg PosInf = NegInf"
| "f64_neg NegInf = PosInf"
| "f64_neg NaN = NaN"

fun f64_abs :: "f64 \<Rightarrow> f64" where
  "f64_abs (Finite x) = Finite \<bar>x\<bar>"
| "f64_abs PosInf = PosInf"
| "f64_abs NegInf = PosInf"
| "f64_abs NaN = NaN"

fun f64_is_neg :: "f64 \<Rightarrow> bool" where
  "f64_is_neg (Finite x) = (x < 0)"
| "f64_is_neg NegInf = True"
| "f64_is_neg PosInf = False"
| "f64_is_neg NaN = False"

fun f64_add :: "f64 \<Rightarrow> f64 \<Rightarrow> f64" where
  "f64_add NaN b = NaN"
| "f64_add a NaN = NaN"
| "f64_add PosInf NegInf = NaN"
| "f64_add NegInf PosInf = NaN"
| "f64_add PosInf b = PosInf"
| "f64_add a PosInf = PosInf"
| "f64_add NegInf b = NegInf"
| "f64_add a NegInf = NegInf"
| "f64_add (Finite x) (Finite y) = round_f64 (x + y)"

definition f64_sub :: "f64 \<Rightarrow> f64 \<Rightarrow> f64" where
  "f64_sub a b = f64_add a (f64_neg b)"

fun f64_mul :: "f64 \<Rightarrow> f64 \<Rightarrow> f64" where
  "f64_mul NaN b = NaN"
| "f64_mul a NaN = NaN"
| "f64_mul (Finite x) (Finite y) = round_f64 (x * y)"
| "f64_mul a b =
     (if a = Finite 0 \<or> b = Finite 0 then NaN
      else if f64_is_neg a = f64_is_neg b then PosInf else NegInf)"

fun f64_div :: "f64 \<Rightarrow> f64 \<Rightarrow> py_error + f64" where
  "f64_div a (Finite y) =
     (if y = 0 then Inl ZeroDivisionError
      else case a of
             Finite x \<Rightarrow> Inr (round_f64 (x / y))
           | NaN \<Rightarrow> Inr NaN
           | _ \<Rightarrow> Inr (if f64_is_neg a = (y < 0) then PosInf else NegInf))"
| "f64_div a NaN = Inr NaN"
| "f64_div (Finite x) b = Inr (Finite 0)"
| "f64_div a b = Inr NaN"

fun f64_eq :: "f64 \<Rightarrow> f64 \<Rightarrow> bool" where
  "f64_eq (Finite x) (Finite y) = (x = y)"
| "f64_eq PosInf PosInf = True"
| "f64_eq NegInf NegInf = True"
| "f64_eq a b = False"

fun f64_le :: "f64 \<Rightarrow> f64 \<Rightarrow> bool" where
  "f64_le NaN b = False"
| "f64_le a NaN = False"
| "f64_le NegInf b = True"
| "f64_le a PosInf = True"
| "f64_le (Finite x) (Finite y) = (x \<le> y)"
| "f64_le a b = False"

fun is_finite :: "f64 \<Rightarrow> bool" where
  "is_finite (Finite x) = True"
| "is_finite v = False"

definition is_f64 :: "f64 \<Rightarrow> bool" where
  "is_f64 v = (case v of Finite x \<Rightarrow> round_f64 x = Finite x | _ \<Rightarrow> True)"

definition calculate_technical_chance_of_winning_f64 :: "f64 \<Rightarrow> f64 \<Rightarrow> f64 \<Rightarrow> py_error + f64" where
  "calculate_technical_chance_of_winning_f64 current_price target_price stop_loss =
     (let stop_loss_distance = f64_abs (f64_sub current_price stop_loss);
          target_distance = f64_abs (f64_sub target_price current_price)
      in if f64_eq (f64_add stop_loss_distance target_distance) (Finite 0) then Inr (Finite (1/2))
         else f64_div stop_loss_distance (f64_add stop_loss_distance target_distance))"

definition calculate_expectancy :: "f64 \<Rightarrow> f64 \<Rightarrow> f64 \<Rightarrow> f64 \<Rightarrow> f64" where
  "calculate_expectancy current_price target_price stop_loss chance_of_winning =
     f64_sub (f64_mul chance_of_winning (f64_sub target_price current_price))
             (f64_mul (f64_sub (Finite 1) chance_of_winning) (f64_sub current_price stop_loss))"

section \<open>Basic facts about the model\<close>

lemma then_res_simps:
  "then_res (Inl e) f = Inl e" "then_res (Inr v) f = f v"
  by (simp_all add: then_res_def)

lemma as_number_simps:
  "as_number None = Inl TypeError" "as_number (Some x) = Inr x"
  by (simp_all add: as_number_def)

lemma guarded_division:
  "(if P then Inr x else if P then Inl e else Inr y) = Inr (if P then x else y)"
  by simp

text \<open>The technical chance never raises: the zero test comes before the division.\<close>

lemma technical_chance_value:
  "calculate_technical_chance_of_winning c t s =
     Inr (if \<bar>c - s\<bar> + \<bar>t - c\<bar> = 0 then 1/2 else \<bar>c - s\<bar> / (\<bar>c - s\<bar> + \<bar>t - c\<bar>))"
  unfolding calculate_technical_chance_of_winning_def py_truediv_def Let_def
  by (rule guarded_division)

lemma ratio_mono:
  fixes a b d :: real
  assumes "0 \<le> a" "a \<le> b" "0 \<le> d" "a + d \<noteq> 0"
  shows "a / (a + d) \<le> b / (b + d)"
proof -
  have pa: "0 < a + d" and pb: "0 < b + d" using assms by linarith+
  have "a * (b + d) \<le> b * (a + d)"
    using mult_right_mono [OF assms(2) assms(3)] by (simp add: algebra_simps)
  then show ?thesis using pa pb by (simp add: frac_le_eq field_simps)
qed

subsection \<open>The fundamental score, branch by branch\<close>

lemma py_not_simps:
  "py_not None = True" "py_not (Some x) = (x = 0)"
  by (simp_all add: py_not_def)

lemma fundamental_body_short:
  "length data < 2 \<Longrightarrow> fundamental_score_body data = Inr (1/2)"
  by (simp add: fundamental_score_body_def)

lemma fundamental_body_fallback:
  assumes "2 \<le> length data"
    and "py_not (revenue (data ! 0)) \<or> py_not (revenue (data ! 1)) \<or> netIncome (data ! 0) = None"
  shows "fundamental_score_body data = Inr (1/2)"
proof -
  have "\<not> (data = [] \<or> length data < 2)" using assms(1) by auto
  then show ?thesis using assms(2)
    by (simp only: fundamental_score_body_def Let_def if_False) auto
qed

text \<open>Past the guard neither division can fail, and no operand is \<open>None\<close>.\<close>

lemma fundamental_body_mean:
  assumes "2 \<le> length data"
    and "revenue (data ! 0) = Some rl" and "revenue (data ! 1) = Some rp"
    and "netIncome (data ! 0) = Some ni" and "rl \<noteq> 0" and "rp \<noteq> 0"
  shows "fundamental_score_body data
           = Inr ((max 0 (min 1 (ni / rl)) + max 0 (min 1 ((rl - rp) / rp))) / 2)"
proof -
  have "\<not> (data = [] \<or> length data < 2)" using assms(1) by auto
  then show ?thesis using assms(2-)
    by (simp add: fundamental_score_body_def Let_def py_not_simps as_number_simps then_res_simps
        py_truediv_def)
qed

lemma clamped_mean_bounds:
  fixes x y :: real
  shows "0 \<le> (max 0 (min 1 x) + max 0 (min 1 y)) / 2" "(max 0 (min 1 x) + max 0 (min 1 y)) / 2 \<le> 1"
  by (simp_all add: max_def min_def)

lemma fundamental_body_cases:
  "fundamental_score_body data = Inr (1/2)
   \<or> (\<exists>x y. fundamental_score_body data = Inr ((max 0 (min 1 x) + max 0 (min 1 y)) / 2))"
proof (cases "length data < 2")
  case True
  then show ?thesis by (simp add: fundamental_body_short)
next
  case False
  then have len: "2 \<le> length data" by simp
  show ?thesis
  proof (cases "py_not (revenue (data ! 0)) \<or> py_not (revenue (data ! 1)) \<or> netIncome (data ! 0) = None")
    case True
    then show ?thesis using fundamental_body_fallback [OF len] by blast
  next
    case False
    then obtain rl rp ni where f: "revenue (data ! 0) = Some rl" "revenue (data ! 1) = Some rp"
        "netIncome (data ! 0) = Some ni" "rl \<noteq> 0" "rp \<noteq> 0"
      by (cases "revenue (data ! 0)"; cases "revenue (data ! 1)"; cases "netIncome (data ! 0)")
         (auto simp: py_not_simps)
    show ?thesis using fundamental_body_mean [OF len f] by blast
  qed
qed

lemma fundamental_score_bounds:
  "0 \<le> get_fundamental_score resp \<and> get_fundamental_score resp \<le> 1"
proof (cases resp)
  case RequestFailed
  then show ?thesis by (simp add: get_fundamental_score_def)
next
  case JsonNull
  then show ?thesis by (simp add: get_fundamental_score_def)
next
  case (JsonList data)
  from fundamental_body_cases [of data] show ?thesis
  proof
    assume "fundamental_score_body data = Inr (1/2)"
    then show ?thesis using JsonList by (simp add: get_fundamental_score_def)
  next
    assume "\<exists>x y. fundamental_score_body data = Inr ((max 0 (min 1 x) + max 0 (min 1 y)) / 2)"
    then obtain x y where "fundamental_score_body data = Inr ((max 0 (min 1 x) + max 0 (min 1 y)) / 2)"
      by blast
    then show ?thesis using JsonList clamped_mean_bounds [of x y]
      by (simp add: get_fundamental_score_def)
  qed
qed

subsection \<open>The technical signal evaluator on numbers and on \<open>None\<close>\<close>

lemma day_low_ratio_numbers:
  "price_to_day_low_ratio cp (Some h) (Some l)
     = Inr (if h - l = 0 then 1/2 else (cp - l) / (h - l))"
  by (simp add: price_to_day_low_ratio_def py_truediv_def then_res_simps as_number_simps)

lemma day_low_ratio_cases:
  "price_to_day_low_ratio cp dh dl = Inl TypeError
   \<or> (\<exists>r. price_to_day_low_ratio cp dh dl = Inr r)"
proof (cases dh)
  case None
  then show ?thesis by (simp add: price_to_day_low_ratio_def then_res_simps as_number_simps)
next
  case h: (Some h)
  show ?thesis
  proof (cases dl)
    case None
    then show ?thesis using h
      by (simp add: price_to_day_low_ratio_def then_res_simps as_number_simps)
  next
    case (Some l)
    then show ?thesis using h by (simp add: day_low_ratio_numbers)
  qed
qed

lemma evaluate_numbers:
  "evaluate_stock_for_trade cp (Some mc) (Some dh) (Some dl) (Some a50) (Some a200) =
     Inr (let ratio = (if dh - dl = 0 then 1/2 else (cp - dl) / (dh - dl));
              r3 = (if mc < 1000000000 \<or> cp \<le> a50 \<or> cp \<le> a200 then ''Sell'' else ''Hold'')
          in if ratio < 0.3 then ''Buy'' else if ratio > 0.7 then ''Sell'' else r3)"
  by (simp add: evaluate_stock_for_trade_def day_low_ratio_numbers then_res_simps as_number_simps
      Let_def)

lemma evaluate_cases:
  "evaluate_stock_for_trade cp mc dh dl a50 a200 = Inl TypeError
   \<or> (\<exists>mc'. mc = Some mc' \<and>
        (evaluate_stock_for_trade cp mc dh dl a50 a200 = Inr ''Buy''
         \<or> evaluate_stock_for_trade cp mc dh dl a50 a200 = Inr ''Sell''
         \<or> evaluate_stock_for_trade cp mc dh dl a50 a200 = Inr ''Hold''))"
proof (cases mc)
  case None
  then show ?thesis by (simp add: evaluate_stock_for_trade_def then_res_simps as_number_simps)
next
  case mc: (Some m)
  show ?thesis
  proof (cases a50)
    case None
    then show ?thesis using mc
      by (simp add: evaluate_stock_for_trade_def then_res_simps as_number_simps Let_def)
  next
    case a50: (Some a)
    show ?thesis
    proof (cases a200)
      case None
      then show ?thesis using mc a50
        by (simp add: evaluate_stock_for_trade_def then_res_simps as_number_simps Let_def)
    next
      case a200: (Some b)
      from day_low_ratio_cases [of cp dh dl] show ?thesis
      proof
        assume "price_to_day_low_ratio cp dh dl = Inl TypeError"
        then show ?thesis using mc a50 a200
          by (simp add: evaluate_stock_for_trade_def then_res_simps as_number_simps Let_def)
      next
        assume "\<exists>r. price_to_day_low_ratio cp dh dl = Inr r"
        then obtain r where "price_to_day_low_ratio cp dh dl = Inr r" ..
        then show ?thesis using mc a50 a200
          by (simp add: evaluate_stock_for_trade_def then_res_simps as_number_simps Let_def)
      qed
    qed
  qed
qed

section \<open>Facts about binary64 rounding\<close>

subsection \<open>Rounding to an integer, and the binade\<close>

lemma rne_cases:
  "round_half_even y = \<lfloor>y\<rfloor> \<or> round_half_even y = \<lfloor>y\<rfloor> + 1"
  by (simp add: round_half_even_def Let_def)

lemma rne_of_int: "round_half_even (of_int n) = n"
  by (simp add: round_half_even_def)

lemma rne_error: "\<bar>of_int (round_half_even y) - y\<bar> \<le> 1/2"
proof -
  have "of_int \<lfloor>y\<rfloor> \<le> y" "y < of_int \<lfloor>y\<rfloor> + 1" by linarith+
  then show ?thesis
    by (auto simp: round_half_even_def Let_def)
qed

lemma rne_eqI:
  assumes "\<bar>y - of_int n\<bar> < 1/2"
  shows "round_half_even y = n"
proof -
  have "\<bar>of_int (round_half_even y) - y\<bar> \<le> 1/2" by (rule rne_error)
  with assms have "\<bar>real_of_int (round_half_even y) - of_int n\<bar> < 1" by linarith
  then have "\<bar>round_half_even y - n\<bar> < 1"
    by linarith
  then show ?thesis by linarith
qed

lemma rne_mono:
  assumes "x \<le> y"
  shows "round_half_even x \<le> round_half_even y"
proof (cases "\<lfloor>x\<rfloor> = \<lfloor>y\<rfloor>")
  case True
  with assms show ?thesis
    by (auto simp: round_half_even_def Let_def)
next
  case False
  with assms have "\<lfloor>x\<rfloor> + 1 \<le> \<lfloor>y\<rfloor>"
    using floor_mono [OF assms] by linarith
  moreover have "round_half_even x \<le> \<lfloor>x\<rfloor> + 1" using rne_cases [of x] by linarith
  moreover have "\<lfloor>y\<rfloor> \<le> round_half_even y" using rne_cases [of y] by linarith
  ultimately show ?thesis by linarith
qed

lemma rne_ge_int: "of_int n \<le> y \<Longrightarrow> n \<le> round_half_even y"
  using rne_mono [of "of_int n" y] by (simp add: rne_of_int)

lemma rne_le_int: "y \<le> of_int n \<Longrightarrow> round_half_even y \<le> n"
  using rne_mono [of y "of_int n"] by (simp add: rne_of_int)

lemma rne_minus: "round_half_even (- y) = - round_half_even y"
proof (cases "y = of_int \<lfloor>y\<rfloor>")
  case True
  then obtain n where "y = of_int n" ..
  then have "- y = of_int (- n)" by simp
  then show ?thesis using \<open>y = of_int n\<close> by (simp only: rne_of_int)
next
  case False
  then have "\<lceil>y\<rceil> = \<lfloor>y\<rfloor> + 1" by (simp add: ceiling_altdef)
  then have fl: "\<lfloor>- y\<rfloor> = - \<lfloor>y\<rfloor> - 1" by (simp add: ceiling_def)
  have lt: "of_int \<lfloor>y\<rfloor> < y" using False of_int_floor_le [of y] by linarith
  show ?thesis
    using lt by (auto simp: round_half_even_def Let_def fl)
qed

lemma two_powi_pos: "0 < (2::real) powi k"
  by simp

lemma two_powi_nat: "0 \<le> k \<Longrightarrow> (2::real) powi k = 2 ^ nat k"
  by (simp add: power_int_def)

lemma two_powi_neg: "k \<le> 0 \<Longrightarrow> (2::real) powi k = 1 / 2 ^ nat (- k)"
  by (auto simp add: power_int_def field_simps)

lemma binade_bounds:
  assumes "x \<noteq> 0"
  shows "2 powi binade x \<le> \<bar>x\<bar>" and "\<bar>x\<bar> < 2 powi (binade x + 1)"
proof -
  have "2 powi binade x \<le> \<bar>x\<bar> \<and> \<bar>x\<bar> < 2 powi (binade x + 1)"
  proof (cases "1 \<le> \<bar>x\<bar>")
    case True
    define n where "n = \<lfloor>\<bar>x\<bar>\<rfloor>"
    have n: "0 < n" using True by (simp add: n_def)
    have b: "binade x = bitlen n - 1" using True by (simp add: binade_def n_def)
    have b1: "1 \<le> bitlen n" using n by (simp add: bitlen_alt_def)
    from bitlen_bounds [OF n] have lo: "2 ^ nat (bitlen n - 1) \<le> n" and hi: "n < 2 ^ nat (bitlen n)"
      by simp_all
    have nx: "real_of_int n \<le> \<bar>x\<bar>" by (simp add: n_def)
    have lo': "(2::real) ^ nat (bitlen n - 1) \<le> of_int n"
      using of_int_le_iff [of "2 ^ nat (bitlen n - 1)" n, where ?'a = real] lo by simp
    have e1: "(2::real) powi binade x = 2 ^ nat (bitlen n - 1)"
      using b b1 by (simp add: two_powi_nat)
    have 1: "2 powi binade x \<le> \<bar>x\<bar>"
      unfolding e1 using nx lo' by linarith
    have "n + 1 \<le> 2 ^ nat (bitlen n)" using hi by simp
    then have hi': "real_of_int (n + 1) \<le> 2 ^ nat (bitlen n)"
      using of_int_le_iff [of "n + 1" "2 ^ nat (bitlen n)", where ?'a = real] by simp
    have xn: "\<bar>x\<bar> < of_int (n + 1)" unfolding n_def by linarith
    have e2: "(2::real) powi (binade x + 1) = 2 ^ nat (bitlen n)"
      using b b1 by (simp add: two_powi_nat)
    have 2: "\<bar>x\<bar> < 2 powi (binade x + 1)"
      unfolding e2 using xn hi' by linarith
    from 1 2 show ?thesis ..
  next
    case False
    then have lt: "\<bar>x\<bar> < 1" by simp
    have pos: "0 < \<bar>x\<bar>" using assms by simp
    define y where "y = 1 / \<bar>x\<bar>"
    have y1: "1 < y" using lt pos by (simp add: y_def)
    define m where "m = \<lceil>y\<rceil> - 1"
    have m: "0 < m" using y1 unfolding m_def by linarith
    have my: "of_int m < y" "y \<le> of_int m + 1" unfolding m_def by linarith+
    have b: "binade x = - bitlen m" using False by (simp add: binade_def m_def y_def)
    have b1: "1 \<le> bitlen m" using m by (simp add: bitlen_alt_def)
    from bitlen_bounds [OF m] have lo: "2 ^ nat (bitlen m - 1) \<le> m" and hi: "m < 2 ^ nat (bitlen m)"
      by simp_all
    have lo': "(2::real) ^ nat (bitlen m - 1) \<le> of_int m"
      using of_int_le_iff [of "2 ^ nat (bitlen m - 1)" m, where ?'a = real] lo by simp
    have "m + 1 \<le> 2 ^ nat (bitlen m)" using hi by simp
    then have hi': "real_of_int m + 1 \<le> 2 ^ nat (bitlen m)"
      using of_int_le_iff [of "m + 1" "2 ^ nat (bitlen m)", where ?'a = real] by simp
    have yhi: "y \<le> 2 ^ nat (bitlen m)" using my hi' by linarith
    have ylo: "2 ^ nat (bitlen m - 1) < y" using my lo' by linarith
    have x_eq: "\<bar>x\<bar> = 1 / y" using pos by (simp add: y_def)
    have 1: "2 powi binade x \<le> \<bar>x\<bar>"
    proof -
      have "1 / 2 ^ nat (bitlen m) \<le> 1 / y"
        using yhi y1 by (intro divide_left_mono) auto
      then show ?thesis using b b1 x_eq by (simp add: two_powi_neg)
    qed
    have 2: "\<bar>x\<bar> < 2 powi (binade x + 1)"
    proof -
      have "1 / y < 1 / 2 ^ nat (bitlen m - 1)"
        using ylo y1 by (intro divide_strict_left_mono) (auto intro: mult_pos_pos)
      moreover have "nat (- (1 - bitlen m)) = nat (bitlen m - 1)" by simp
      ultimately show ?thesis using b b1 x_eq
        by (simp add: two_powi_neg [of "1 - bitlen m"])
    qed
    from 1 2 show ?thesis ..
  qed
  then show "2 powi binade x \<le> \<bar>x\<bar>" and "\<bar>x\<bar> < 2 powi (binade x + 1)" by simp_all
qed

lemma two_powi_less_imp: "(2::real) powi a < 2 powi b \<Longrightarrow> a < b"
  using power_int_increasing [of b a "2::real"] by (cases "a < b") auto

lemma binade_eqI:
  assumes "2 powi e \<le> \<bar>x\<bar>" and "\<bar>x\<bar> < 2 powi (e + 1)"
  shows "binade x = e"
proof -
  have "0 < \<bar>x\<bar>" using assms(1) two_powi_pos [of e] by linarith
  then have nz: "x \<noteq> 0" by auto
  have "2 powi e < (2::real) powi (binade x + 1)"
    using assms(1) binade_bounds(2) [OF nz] by linarith
  then have 1: "e < binade x + 1" by (rule two_powi_less_imp)
  have "2 powi binade x < (2::real) powi (e + 1)"
    using assms(2) binade_bounds(1) [OF nz] by linarith
  then have 2: "binade x < e + 1" by (rule two_powi_less_imp)
  from 1 2 show ?thesis by linarith
qed

lemma binade_minus: "binade (- x) = binade x"
  by (simp add: binade_def)

lemma binade_mono:
  assumes "x \<noteq> 0" and "\<bar>x\<bar> \<le> \<bar>y\<bar>"
  shows "binade x \<le> binade y"
proof -
  have ny: "y \<noteq> 0" using assms by auto
  have "2 powi binade x < (2::real) powi (binade y + 1)"
    using binade_bounds(1) [OF assms(1)] binade_bounds(2) [OF ny] assms(2) by linarith
  then have "binade x < binade y + 1" by (rule two_powi_less_imp)
  then show ?thesis by linarith
qed

subsection \<open>Rounding to a double: sign, monotonicity, fixed points, error\<close>

text \<open>
  \<open>round_real\<close> is odd and monotone, leaves every \<open>n * 2 powi k\<close> with \<open>|n| < 2 ^ 53\<close> and
  \<open>- 1074 \<le> k\<close> unchanged, is idempotent, and moves its argument by at most half an ulp.
\<close>

lemma two_powi_add: "(2::real) powi (a + b) = 2 powi a * 2 powi b"
  by (rule power_int_add) simp

lemma p53: "(2::real) powi 53 = of_int (2 ^ 53)"
  by simp

lemma p52: "(2::real) powi 52 = of_int (2 ^ 52)"
  by simp

lemma ulp_pos: "0 < ulp x"
  by (simp add: ulp_def)

lemma ulp_minus: "ulp (- x) = ulp x"
  by (simp add: ulp_def binade_minus)

lemma round_real_zero: "round_real 0 = 0"
  by (simp add: round_real_def)

lemma round_real_minus: "round_real (- x) = - round_real x"
  by (simp add: round_real_def ulp_minus rne_minus)

lemma ulp_times_2_53:
  "ulp x * 2 powi 53 = 2 powi (max (binade x) (- 1022) + 1)"
proof -
  have "ulp x * 2 powi 53 = 2 powi (max (binade x) (- 1022) - 52 + 53)"
    unfolding ulp_def by (rule two_powi_add [symmetric])
  also have "max (binade x) (- 1022) - 52 + 53 = max (binade x) (- 1022) + 1" by linarith
  finally show ?thesis .
qed

lemma ulp_times_2_52:
  "ulp x * 2 powi 52 = 2 powi (max (binade x) (- 1022))"
proof -
  have "ulp x * 2 powi 52 = 2 powi (max (binade x) (- 1022) - 52 + 52)"
    unfolding ulp_def by (rule two_powi_add [symmetric])
  also have "max (binade x) (- 1022) - 52 + 52 = max (binade x) (- 1022)" by linarith
  finally show ?thesis .
qed

lemma scaled_less:
  assumes "x \<noteq> 0"
  shows "\<bar>x\<bar> / ulp x < 2 powi 53"
proof -
  have "\<bar>x\<bar> < 2 powi (binade x + 1)" by (rule binade_bounds(2) [OF assms])
  also have "\<dots> \<le> 2 powi (max (binade x) (- 1022) + 1)"
    by (rule power_int_increasing) simp_all
  also have "\<dots> = 2 powi 53 * ulp x" by (simp only: ulp_times_2_53 [symmetric] mult.commute)
  finally show ?thesis using ulp_pos [of x] by (simp only: pos_divide_less_eq)
qed

lemma scaled_ge:
  assumes "x \<noteq> 0" and "- 1022 \<le> binade x"
  shows "2 powi 52 \<le> \<bar>x\<bar> / ulp x"
proof -
  have m: "max (binade x) (- 1022) = binade x" using assms(2) by linarith
  have "2 powi 52 * ulp x = 2 powi (binade x)"
    using ulp_times_2_52 [of x] by (simp only: m mult.commute)
  also have "\<dots> \<le> \<bar>x\<bar>" by (rule binade_bounds(1) [OF assms(1)])
  finally show ?thesis using ulp_pos [of x] by (simp only: pos_le_divide_eq)
qed

lemma times_ulp_mono:
  "(a::real) \<le> b \<Longrightarrow> a * ulp x \<le> b * ulp x"
  using ulp_pos [of x] by (intro mult_right_mono) simp_all

lemma round_real_nonneg:
  assumes "0 \<le> x"
  shows "0 \<le> round_real x"
proof (cases "x = 0")
  case True
  then show ?thesis by (simp add: round_real_zero)
next
  case False
  have "0 \<le> x / ulp x" using assms ulp_pos [of x] by simp
  then have "0 \<le> round_half_even (x / ulp x)" using rne_ge_int [of 0 "x / ulp x"] by simp
  then show ?thesis using False ulp_pos [of x] by (simp add: round_real_def)
qed

lemma round_real_le_pow:
  assumes "0 < x"
  shows "round_real x \<le> 2 powi (max (binade x) (- 1022) + 1)"
proof -
  have ax: "\<bar>x\<bar> = x" and nz: "x \<noteq> 0" using assms by simp_all
  have "x / ulp x \<le> of_int (2 ^ 53)"
    using scaled_less [OF nz] unfolding ax p53 by linarith
  then have "round_half_even (x / ulp x) \<le> 2 ^ 53" by (rule rne_le_int)
  then have "real_of_int (round_half_even (x / ulp x)) \<le> of_int (2 ^ 53)"
    by (simp only: of_int_le_iff)
  then have "of_int (round_half_even (x / ulp x)) * ulp x \<le> of_int (2 ^ 53) * ulp x"
    by (rule times_ulp_mono)
  also have "of_int (2 ^ 53) * ulp x = 2 powi (max (binade x) (- 1022) + 1)"
    by (simp only: p53 [symmetric] ulp_times_2_53 [symmetric] mult.commute)
  finally show ?thesis using nz by (simp only: round_real_def if_False)
qed

lemma round_real_ge_pow:
  assumes "0 < x" and "- 1022 \<le> binade x"
  shows "2 powi (binade x) \<le> round_real x"
proof -
  have ax: "\<bar>x\<bar> = x" and nz: "x \<noteq> 0" using assms by simp_all
  have m: "max (binade x) (- 1022) = binade x" using assms(2) by linarith
  have "of_int (2 ^ 52) \<le> x / ulp x"
    using scaled_ge [OF nz assms(2)] unfolding ax p52 by linarith
  then have "2 ^ 52 \<le> round_half_even (x / ulp x)" by (rule rne_ge_int)
  then have "real_of_int (2 ^ 52) \<le> of_int (round_half_even (x / ulp x))"
    by (simp only: of_int_le_iff)
  then have "of_int (2 ^ 52) * ulp x \<le> of_int (round_half_even (x / ulp x)) * ulp x"
    by (rule times_ulp_mono)
  moreover have "of_int (2 ^ 52) * ulp x = 2 powi (binade x)"
    using ulp_times_2_52 [of x] by (simp only: p52 [symmetric] m mult.commute)
  ultimately show ?thesis using nz by (simp only: round_real_def if_False)
qed

lemma round_real_mono_pos:
  assumes "0 < x" and "x \<le> y"
  shows "round_real x \<le> round_real y"
proof -
  have y: "0 < y" using assms by linarith
  have nx: "x \<noteq> 0" and ny: "y \<noteq> 0" using assms by auto
  have b: "binade x \<le> binade y" using assms by (intro binade_mono) auto
  show ?thesis
  proof (cases "max (binade x) (- 1022) = max (binade y) (- 1022)")
    case True
    then have u: "ulp x = ulp y" by (simp add: ulp_def)
    have "x / ulp y \<le> y / ulp y" using assms(2) ulp_pos [of y] by (simp add: divide_right_mono)
    then have "round_half_even (x / ulp y) \<le> round_half_even (y / ulp y)" by (rule rne_mono)
    then have "real_of_int (round_half_even (x / ulp y)) \<le> of_int (round_half_even (y / ulp y))"
      by (simp only: of_int_le_iff)
    then have "of_int (round_half_even (x / ulp y)) * ulp y \<le> of_int (round_half_even (y / ulp y)) * ulp y"
      by (rule times_ulp_mono)
    then show ?thesis using nx ny by (simp only: round_real_def u if_False)
  next
    case False
    with b have lt: "max (binade x) (- 1022) + 1 \<le> binade y" and by': "- 1022 \<le> binade y"
      by linarith+
    have "round_real x \<le> 2 powi (max (binade x) (- 1022) + 1)"
      by (rule round_real_le_pow [OF assms(1)])
    also have "\<dots> \<le> 2 powi (binade y)"
      using lt by (intro power_int_increasing) simp_all
    also have "\<dots> \<le> round_real y" by (rule round_real_ge_pow [OF y by'])
    finally show ?thesis .
  qed
qed

lemma round_real_mono:
  assumes "x \<le> y"
  shows "round_real x \<le> round_real y"
proof -
  consider "0 < x" | "x \<le> 0" "0 \<le> y" | "y < 0" by linarith
  then show ?thesis
  proof cases
    case 1
    then show ?thesis using assms by (rule round_real_mono_pos)
  next
    case 2
    have "0 \<le> round_real (- x)" using 2(1) by (intro round_real_nonneg) simp
    then have "round_real x \<le> 0" by (simp add: round_real_minus)
    moreover have "0 \<le> round_real y" using 2(2) by (rule round_real_nonneg)
    ultimately show ?thesis by linarith
  next
    case 3
    have "round_real (- y) \<le> round_real (- x)"
      using 3 assms by (intro round_real_mono_pos) simp_all
    then show ?thesis by (simp add: round_real_minus)
  qed
qed

lemma round_real_repr:
  assumes "\<bar>n\<bar> < 2 ^ 53" and "- 1074 \<le> k"
  shows "round_real (of_int n * 2 powi k) = of_int n * 2 powi k"
proof (cases "n = 0")
  case True
  then show ?thesis by (simp add: round_real_zero)
next
  case False
  define x :: real where "x = of_int n * 2 powi k"
  have nz: "x \<noteq> 0" using False by (simp add: x_def)
  define j where "j = max (binade x) (- 1022) - 52"
  have abs_x: "\<bar>x\<bar> = of_int \<bar>n\<bar> * 2 powi k" by (simp add: x_def abs_mult)
  have "real_of_int \<bar>n\<bar> < of_int (2 ^ 53)"
    using assms(1) by (simp only: of_int_less_iff)
  then have "real_of_int \<bar>n\<bar> < 2 powi 53" by (simp only: p53)
  then have "\<bar>x\<bar> < 2 powi 53 * 2 powi k"
    unfolding abs_x by (intro mult_strict_right_mono) simp_all
  also have "\<dots> = 2 powi (53 + k)" by (rule two_powi_add [symmetric])
  finally have "\<bar>x\<bar> < 2 powi (53 + k)" .
  with binade_bounds(1) [OF nz] have "(2::real) powi (binade x) < 2 powi (53 + k)" by linarith
  then have "binade x < 53 + k" by (rule two_powi_less_imp)
  then have jk: "j \<le> k" using assms(2) unfolding j_def by linarith
  have u: "ulp x = 2 powi j" by (simp add: ulp_def j_def)
  have "2 powi k = (2::real) powi (j + (k - j))" by simp
  also have "\<dots> = 2 powi j * 2 powi (k - j)" by (rule two_powi_add)
  also have "2 powi (k - j) = (2::real) ^ nat (k - j)" using jk by (simp add: two_powi_nat)
  finally have pk: "2 powi k = (2::real) powi j * 2 ^ nat (k - j)" .
  have xe: "x = of_int (n * 2 ^ nat (k - j)) * 2 powi j"
    unfolding x_def pk by simp
  have sc: "x / ulp x = of_int (n * 2 ^ nat (k - j))"
    unfolding u by (subst xe) simp
  have "round_real x = of_int (n * 2 ^ nat (k - j)) * ulp x"
    using nz by (simp only: round_real_def sc rne_of_int if_False)
  also have "\<dots> = x" unfolding u by (rule xe [symmetric])
  finally show ?thesis by (simp only: x_def)
qed

lemma round_real_one: "round_real 1 = 1"
  using round_real_repr [of 1 0] by simp

lemma round_real_form:
  assumes "x \<noteq> 0"
  shows "\<exists>n k. round_real x = of_int n * 2 powi k \<and> \<bar>n\<bar> \<le> 2 ^ 53 \<and> - 1074 \<le> k"
proof -
  define N where "N = round_half_even (x / ulp x)"
  define j where "j = max (binade x) (- 1022) - 52"
  have u: "ulp x = 2 powi j" by (simp add: ulp_def j_def)
  have j: "- 1074 \<le> j" unfolding j_def by linarith
  have "x \<le> \<bar>x\<bar>" "- \<bar>x\<bar> \<le> x" by simp_all
  then have "x / ulp x \<le> \<bar>x\<bar> / ulp x" "- (\<bar>x\<bar> / ulp x) \<le> x / ulp x"
    using ulp_pos [of x] divide_right_mono [of x "\<bar>x\<bar>" "ulp x"]
      divide_right_mono [of "- \<bar>x\<bar>" x "ulp x"] by simp_all
  with scaled_less [OF assms] have hi: "x / ulp x \<le> of_int (2 ^ 53)"
    and lo: "of_int (- (2 ^ 53)) \<le> x / ulp x"
    unfolding p53 by simp_all
  have "N \<le> 2 ^ 53" unfolding N_def using hi by (rule rne_le_int)
  moreover have "- (2 ^ 53) \<le> N" unfolding N_def using lo by (rule rne_ge_int)
  ultimately have "\<bar>N\<bar> \<le> 2 ^ 53" by linarith
  moreover have "round_real x = of_int N * 2 powi j"
    using assms by (simp only: round_real_def N_def u if_False)
  ultimately show ?thesis using j by blast
qed

lemma round_real_idem: "round_real (round_real x) = round_real x"
proof (cases "x = 0")
  case True
  then show ?thesis by (simp add: round_real_zero)
next
  case False
  from round_real_form [OF False] obtain n k
    where r: "round_real x = of_int n * 2 powi k" and n: "\<bar>n\<bar> \<le> 2 ^ 53" and k: "- 1074 \<le> k"
    by blast
  have k1: "- 1074 \<le> k + 1" using k by linarith
  have two: "(2::real) powi (k + 1) = 2 powi k * 2"
    using two_powi_add [of k 1] by simp
  consider "\<bar>n\<bar> < 2 ^ 53" | "n = 2 ^ 53" | "n = - (2 ^ 53)" using n by linarith
  then show ?thesis
  proof cases
    case 1
    then show ?thesis unfolding r using k by (rule round_real_repr)
  next
    case 2
    have e: "of_int n * 2 powi k = (of_int (2 ^ 52) :: real) * 2 powi (k + 1)"
      unfolding two 2 by simp
    have "\<bar>2 ^ 52 :: int\<bar> < 2 ^ 53" by simp
    then show ?thesis unfolding r e using k1 by (rule round_real_repr)
  next
    case 3
    have e: "of_int n * 2 powi k = (of_int (- (2 ^ 52)) :: real) * 2 powi (k + 1)"
      unfolding two 3 by simp
    have "\<bar>- (2 ^ 52) :: int\<bar> < 2 ^ 53" by simp
    then show ?thesis unfolding r e using k1 by (rule round_real_repr)
  qed
qed

lemma round_real_multiple: "\<exists>m. round_real x = of_int m * 2 powi (- 1074)"
proof (cases "x = 0")
  case True
  then have "round_real x = of_int 0 * 2 powi (- 1074)" by (simp add: round_real_zero)
  then show ?thesis ..
next
  case False
  from round_real_form [OF False] obtain n k
    where r: "round_real x = of_int n * 2 powi k" and k: "- 1074 \<le> k"
    by blast
  have "2 powi k = (2::real) powi (- 1074 + (k + 1074))" by simp
  also have "\<dots> = 2 powi (- 1074) * 2 powi (k + 1074)" by (rule two_powi_add)
  also have "2 powi (k + 1074) = (2::real) ^ nat (k + 1074)" using k by (simp add: two_powi_nat)
  finally have "round_real x = of_int (n * 2 ^ nat (k + 1074)) * 2 powi (- 1074)"
    unfolding r by simp
  then show ?thesis ..
qed

lemma round_real_error: "\<bar>round_real x - x\<bar> \<le> ulp x / 2"
proof (cases "x = 0")
  case True
  then show ?thesis using ulp_pos [of 0] by (simp add: round_real_zero)
next
  case False
  define N where "N = round_half_even (x / ulp x)"
  have "\<bar>of_int N - x / ulp x\<bar> \<le> 1/2" unfolding N_def by (rule rne_error)
  then have "\<bar>of_int N - x / ulp x\<bar> * ulp x \<le> 1/2 * ulp x"
    by (rule times_ulp_mono)
  moreover have "of_int N * ulp x - x = (of_int N - x / ulp x) * ulp x"
    using ulp_pos [of x] by (simp add: field_simps)
  then have "\<bar>of_int N * ulp x - x\<bar> = \<bar>of_int N - x / ulp x\<bar> * ulp x"
    using ulp_pos [of x] by (simp add: abs_mult)
  moreover have "round_real x = of_int N * ulp x"
    using False by (simp only: round_real_def N_def if_False)
  ultimately show ?thesis by simp
qed

subsection \<open>The operations on values\<close>

lemma max_f64_pos: "0 < max_f64"
  by (simp add: max_f64_def)

lemma max_f64_repr: "max_f64 = of_int (2 ^ 53 - 1) * 2 powi 971"
  by (simp add: max_f64_def)

lemma round_real_max: "round_real max_f64 = max_f64"
  unfolding max_f64_repr by (rule round_real_repr) simp_all

lemma round_f64_Finite_iff:
  "round_f64 x = Finite r \<longleftrightarrow> r = round_real x \<and> \<bar>r\<bar> \<le> max_f64"
  using max_f64_pos by (auto simp: round_f64_def Let_def)

lemma round_f64_zero: "round_f64 0 = Finite 0"
  using max_f64_pos by (simp add: round_f64_Finite_iff round_real_zero)

lemma round_f64_small:
  assumes "\<bar>x\<bar> \<le> max_f64"
  shows "round_f64 x = Finite (round_real x)"
proof -
  have "round_real x \<le> round_real max_f64" using assms by (intro round_real_mono) simp
  moreover have "round_real (- max_f64) \<le> round_real x" using assms by (intro round_real_mono) simp
  ultimately have "\<bar>round_real x\<bar> \<le> max_f64"
    by (simp add: round_real_minus round_real_max)
  then show ?thesis by (simp add: round_f64_Finite_iff)
qed

lemma round_f64_minus: "round_f64 (- x) = f64_neg (round_f64 x)"
  using max_f64_pos by (auto simp: round_f64_def Let_def round_real_minus)

lemma is_f64_round: "is_f64 (round_f64 x)"
proof (cases "round_f64 x")
  case (Finite r)
  then have r: "r = round_real x" "\<bar>r\<bar> \<le> max_f64" by (auto simp: round_f64_Finite_iff)
  have "round_real r = r" unfolding r(1) by (rule round_real_idem)
  then have "round_f64 r = Finite r" using r(2) by (simp add: round_f64_Finite_iff)
  then show ?thesis using Finite by (simp add: is_f64_def)
qed (simp_all add: is_f64_def)

lemma is_f64_Finite: "is_f64 (Finite x) \<longleftrightarrow> round_real x = x \<and> \<bar>x\<bar> \<le> max_f64"
  by (auto simp: is_f64_def round_f64_Finite_iff)

lemma is_f64_neg: "is_f64 v \<Longrightarrow> is_f64 (f64_neg v)"
  by (cases v) (simp_all add: is_f64_Finite round_real_minus, simp_all add: is_f64_def)

lemma is_f64_add: "is_f64 (f64_add a b)"
  by (cases a; cases b) (simp_all add: is_f64_round, simp_all add: is_f64_def)

lemma is_f64_sub: "is_f64 (f64_sub a b)"
  by (simp add: f64_sub_def is_f64_add)

lemma f64_mul_one:
  assumes "is_f64 v"
  shows "f64_mul (Finite 1) v = v"
  using assms by (cases v) (simp_all add: is_f64_def)

lemma f64_add_zero_right:
  assumes "is_f64 v"
  shows "f64_add v (Finite 0) = v"
  using assms by (cases v) (simp_all add: is_f64_def)

lemma f64_add_zero_left:
  assumes "is_f64 v"
  shows "f64_add (Finite 0) v = v"
  using assms by (cases v) (simp_all add: is_f64_def)

lemma f64_mul_zero_finite:
  assumes "is_finite v"
  shows "f64_mul (Finite 0) v = Finite 0"
  using assms by (cases v) (simp_all add: round_f64_zero)

lemma round_f64_one: "round_f64 1 = Finite 1"
proof -
  have "(1::real) \<le> max_f64" by (simp add: max_f64_def)
  then show ?thesis using round_real_one by (simp add: round_f64_Finite_iff)
qed

lemma expectancy_chance_one:
  assumes "is_finite (f64_sub c s)"
  shows "calculate_expectancy c t s (Finite 1) = f64_sub t c"
proof -
  have 1: "f64_mul (Finite 1) (f64_sub t c) = f64_sub t c"
    by (rule f64_mul_one) (rule is_f64_sub)
  have 2: "f64_sub (Finite 1) (Finite 1) = Finite 0"
    by (simp add: f64_sub_def round_f64_zero)
  have 3: "f64_mul (Finite 0) (f64_sub c s) = Finite 0"
    using assms by (rule f64_mul_zero_finite)
  have 4: "f64_sub (f64_sub t c) (Finite 0) = f64_sub t c"
    using f64_add_zero_right [OF is_f64_sub, of t c] by (simp add: f64_sub_def [of "f64_sub t c"])
  show ?thesis
    by (simp only: calculate_expectancy_def 1 2 3 4)
qed

lemma expectancy_chance_zero:
  assumes "is_finite (f64_sub t c)"
  shows "calculate_expectancy c t s (Finite 0) = f64_neg (f64_sub c s)"
proof -
  have 1: "f64_mul (Finite 0) (f64_sub t c) = Finite 0"
    using assms by (rule f64_mul_zero_finite)
  have 2: "f64_sub (Finite 1) (Finite 0) = Finite 1"
    by (simp add: f64_sub_def round_f64_one)
  have 3: "f64_mul (Finite 1) (f64_sub c s) = f64_sub c s"
    by (rule f64_mul_one) (rule is_f64_sub)
  have 4: "f64_sub (Finite 0) (f64_sub c s) = f64_neg (f64_sub c s)"
    unfolding f64_sub_def [of "Finite 0"]
    by (rule f64_add_zero_left) (rule is_f64_neg, rule is_f64_sub)
  show ?thesis
    by (simp only: calculate_expectancy_def 1 2 3 4)
qed

subsection \<open>No underflow to zero, and the relative error\<close>

text \<open>
  Doubles are multiples of \<open>2 powi (- 1074)\<close>, and so are their sums and differences: a
  difference of two distinct doubles does not round to zero, and a sum of two
  non-negative doubles rounds to zero only when both are zero. On such multiples the
  relative error of rounding is at most \<open>2 powi (- 53)\<close>, subnormal range included.
\<close>

lemma round_real_abs: "round_real \<bar>x\<bar> = \<bar>round_real x\<bar>"
proof (cases "0 \<le> x")
  case True
  then show ?thesis using round_real_nonneg [of x] by simp
next
  case False
  then have "0 \<le> round_real (- x)" by (intro round_real_nonneg) simp
  then show ?thesis using False by (simp add: round_real_minus)
qed

lemma round_real_smallest: "round_real (2 powi (- 1074)) = 2 powi (- 1074)"
  using round_real_repr [of 1 "- 1074"] by simp

lemma multiple_ge:
  fixes x :: real
  assumes "x = of_int m * 2 powi (- 1074)" and "x \<noteq> 0"
  shows "2 powi (- 1074) \<le> \<bar>x\<bar>"
proof -
  have "m \<noteq> 0" using assms by auto
  then have "1 \<le> \<bar>m\<bar>" by linarith
  then have "(1::real) \<le> of_int \<bar>m\<bar>" by (simp only: of_int_1_le_iff)
  then have "1 * 2 powi (- 1074) \<le> real_of_int \<bar>m\<bar> * 2 powi (- 1074)"
    by (intro mult_right_mono) simp_all
  moreover have "\<bar>x\<bar> = real_of_int \<bar>m\<bar> * 2 powi (- 1074)"
    unfolding assms(1) by (simp add: abs_mult)
  ultimately show ?thesis by simp
qed

lemma round_real_eq_0:
  fixes x :: real
  assumes "x = of_int m * 2 powi (- 1074)" and "round_real x = 0"
  shows "x = 0"
proof (rule ccontr)
  assume nz: "x \<noteq> 0"
  have "2 powi (- 1074) \<le> \<bar>x\<bar>" by (rule multiple_ge [OF assms(1) nz])
  then have "round_real (2 powi (- 1074)) \<le> round_real \<bar>x\<bar>" by (rule round_real_mono)
  then have "2 powi (- 1074) \<le> \<bar>round_real x\<bar>"
    by (simp only: round_real_smallest round_real_abs)
  then show False using assms(2) two_powi_pos [of "- 1074"] by simp
qed

lemma fixed_multiple:
  assumes "round_real x = x"
  shows "\<exists>m. x = of_int m * 2 powi (- 1074)"
  using round_real_multiple [of x] assms by simp

lemma multiple_add:
  assumes "\<exists>m. x = real_of_int m * 2 powi (- 1074)" and "\<exists>m. y = real_of_int m * 2 powi (- 1074)"
  shows "\<exists>m. x + y = real_of_int m * 2 powi (- 1074)"
proof -
  from assms obtain m n where "x = of_int m * 2 powi (- 1074)" "y = of_int n * 2 powi (- 1074)"
    by blast
  then have "x + y = of_int (m + n) * 2 powi (- 1074)" by (simp add: algebra_simps)
  then show ?thesis ..
qed

lemma multiple_diff:
  assumes "\<exists>m. x = real_of_int m * 2 powi (- 1074)" and "\<exists>m. y = real_of_int m * 2 powi (- 1074)"
  shows "\<exists>m. x - y = real_of_int m * 2 powi (- 1074)"
proof -
  from assms obtain m n where "x = of_int m * 2 powi (- 1074)" "y = of_int n * 2 powi (- 1074)"
    by blast
  then have "x - y = of_int (m - n) * 2 powi (- 1074)" by (simp add: algebra_simps)
  then show ?thesis ..
qed

lemma round_real_diff_eq_0:
  assumes "round_real x = x" and "round_real y = y"
  shows "round_real (x - y) = 0 \<longleftrightarrow> x = y"
proof
  assume z: "round_real (x - y) = 0"
  from multiple_diff [OF fixed_multiple [OF assms(1)] fixed_multiple [OF assms(2)]]
  obtain m where "x - y = of_int m * 2 powi (- 1074)" ..
  from round_real_eq_0 [OF this z] show "x = y" by simp
next
  assume "x = y"
  then show "round_real (x - y) = 0" by (simp add: round_real_zero)
qed

lemma round_real_sum_eq_0:
  assumes "round_real a = a" and "round_real b = b" and "0 \<le> a" and "0 \<le> b"
  shows "round_real (a + b) = 0 \<longleftrightarrow> a = 0 \<and> b = 0"
proof
  assume z: "round_real (a + b) = 0"
  from multiple_add [OF fixed_multiple [OF assms(1)] fixed_multiple [OF assms(2)]]
  obtain m where "a + b = of_int m * 2 powi (- 1074)" ..
  from round_real_eq_0 [OF this z] have "a + b = 0" .
  then show "a = 0 \<and> b = 0" using assms(3,4) by linarith
next
  assume "a = 0 \<and> b = 0"
  then show "round_real (a + b) = 0" by (simp add: round_real_zero)
qed

lemma round_real_unit:
  assumes "0 \<le> x" and "x \<le> 1"
  shows "0 \<le> round_real x" and "round_real x \<le> 1"
proof -
  show "0 \<le> round_real x" using assms(1) by (rule round_real_nonneg)
  have "round_real x \<le> round_real 1" using assms(2) by (rule round_real_mono)
  then show "round_real x \<le> 1" by (simp only: round_real_one)
qed

lemma round_real_error_unit:
  assumes "0 \<le> x" and "x \<le> 1"
  shows "\<bar>round_real x - x\<bar> \<le> 2 powi (- 54)"
proof -
  consider "x = 0" | "x = 1" | "0 < x" "x < 1" using assms by linarith
  then show ?thesis
  proof cases
    case 1
    then show ?thesis by (simp add: round_real_zero)
  next
    case 2
    then show ?thesis by (simp add: round_real_one)
  next
    case 3
    have nz: "x \<noteq> 0" using 3 by simp
    have "2 powi binade x \<le> \<bar>x\<bar>" by (rule binade_bounds(1) [OF nz])
    then have "(2::real) powi binade x < 2 powi 0" using 3 by simp
    then have "binade x < 0" by (rule two_powi_less_imp)
    then have "max (binade x) (- 1022) - 52 \<le> - 53" by linarith
    then have "ulp x \<le> 2 powi (- 53)"
      unfolding ulp_def by (intro power_int_increasing) simp_all
    moreover have "(2::real) powi (- 53) = 2 powi (- 54) * 2"
      using two_powi_add [of "- 54" 1] by simp
    ultimately have "ulp x / 2 \<le> 2 powi (- 54)" by linarith
    with round_real_error [of x] show ?thesis by linarith
  qed
qed

lemma round_real_error_rel:
  fixes x :: real
  assumes "x = of_int m * 2 powi (- 1074)"
  shows "\<bar>round_real x - x\<bar> \<le> 2 powi (- 53) * \<bar>x\<bar>"
proof (cases "x = 0")
  case True
  then show ?thesis by (simp add: round_real_zero)
next
  case nz: False
  show ?thesis
  proof (cases "- 1022 \<le> binade x")
    case True
    then have m: "max (binade x) (- 1022) - 52 = - 53 + (binade x - 1 + 2)" by linarith
    have "ulp x = 2 powi (- 53) * 2 powi (binade x - 1 + 2)"
      unfolding ulp_def m by (rule two_powi_add)
    also have "2 powi (binade x - 1 + 2) = (2::real) powi (binade x - 1) * 2 powi 2"
      by (rule two_powi_add)
    finally have "ulp x / 2 = 2 powi (- 53) * (2 powi (binade x - 1) * 2)" by simp
    also have "(2::real) powi (binade x - 1) * 2 = 2 powi binade x"
      using two_powi_add [of "binade x - 1" 1] by simp
    finally have "ulp x / 2 = 2 powi (- 53) * 2 powi binade x" .
    also have "\<dots> \<le> 2 powi (- 53) * \<bar>x\<bar>"
      using binade_bounds(1) [OF nz] by (intro mult_left_mono) simp_all
    finally show ?thesis using round_real_error [of x] by linarith
  next
    case False
    then have "max (binade x) (- 1022) - 52 = - 1074" by linarith
    then have u: "ulp x = 2 powi (- 1074)" by (simp only: ulp_def)
    have p: "(2::real) powi (- 1074) \<noteq> 0" by simp
    have "x / ulp x = of_int m"
      unfolding u by (subst assms) (rule nonzero_mult_div_cancel_right [OF p])
    then have "round_real x = of_int m * ulp x"
      using nz by (simp only: round_real_def rne_of_int if_False)
    also have "\<dots> = x" unfolding u by (rule assms [symmetric])
    finally have "round_real x = x" .
    then show ?thesis by simp
  qed
qed

subsection \<open>The technical chance on floats\<close>

text \<open>On every input, NaN and the infinities included, the zero test comes before the
  division: the function never raises.\<close>

lemma f64_div_raises_iff: "f64_div a b = Inl e \<longleftrightarrow> b = Finite 0 \<and> e = ZeroDivisionError"
  by (cases b; cases a) auto

lemma f64_eq_zero_iff: "f64_eq b (Finite 0) \<longleftrightarrow> b = Finite 0"
  by (cases b) simp_all

lemma technical_chance_f64_never_raises:
  "calculate_technical_chance_of_winning_f64 c t s \<noteq> Inl e"
  by (simp add: calculate_technical_chance_of_winning_f64_def Let_def f64_div_raises_iff f64_eq_zero_iff)

lemma f64_sub_Finite: "f64_sub (Finite x) (Finite y) = round_f64 (x - y)"
  by (simp add: f64_sub_def)

lemma f64_sub_small:
  "\<bar>x - y\<bar> \<le> max_f64 \<Longrightarrow> f64_sub (Finite x) (Finite y) = Finite (round_real (x - y))"
  by (simp add: f64_sub_Finite round_f64_small)

lemma distance_props:
  assumes "f64_sub (Finite x) (Finite y) = Finite d"
  shows "d = round_real (x - y)" and "round_real \<bar>d\<bar> = \<bar>d\<bar>"
proof -
  show d: "d = round_real (x - y)"
    using assms by (simp add: f64_sub_Finite round_f64_Finite_iff)
  have "round_real d = d" unfolding d by (rule round_real_idem)
  then show "round_real \<bar>d\<bar> = \<bar>d\<bar>" by (simp add: round_real_abs)
qed

lemma f64_eq_round_zero: "f64_eq (round_f64 z) (Finite 0) \<longleftrightarrow> round_real z = 0"
  using max_f64_pos by (auto simp: round_f64_def Let_def)

lemma tech_f64_unfold:
  assumes "f64_sub (Finite c) (Finite s) = Finite ds" and "f64_sub (Finite t) (Finite c) = Finite dt"
  shows "calculate_technical_chance_of_winning_f64 (Finite c) (Finite t) (Finite s) =
           (if round_real (\<bar>ds\<bar> + \<bar>dt\<bar>) = 0 then Inr (Finite (1/2))
            else f64_div (Finite \<bar>ds\<bar>) (round_f64 (\<bar>ds\<bar> + \<bar>dt\<bar>)))"
  by (simp add: calculate_technical_chance_of_winning_f64_def assms Let_def f64_eq_round_zero)

lemma chance_value:
  assumes "round_real a = a" and "0 \<le> a" and "round_real b = b" and "0 \<le> b"
    and "\<not> (a = 0 \<and> b = 0)"
  shows "\<exists>v. f64_div (Finite a) (round_f64 (a + b)) = Inr (Finite v) \<and> 0 \<le> v \<and> v \<le> 1
            \<and> (round_real (a + b) \<le> max_f64 \<longrightarrow> v = round_real (a / round_real (a + b)))"
proof -
  define \<sigma> where "\<sigma> = round_real (a + b)"
  have nz: "\<sigma> \<noteq> 0"
    unfolding \<sigma>_def using round_real_sum_eq_0 [OF assms(1,3,2,4)] assms(5) by blast
  have "0 \<le> \<sigma>" unfolding \<sigma>_def using assms(2,4) by (intro round_real_nonneg) simp
  with nz have pos: "0 < \<sigma>" by simp
  have "round_real a \<le> \<sigma>" unfolding \<sigma>_def using assms(4) by (intro round_real_mono) simp
  then have ale: "a \<le> \<sigma>" by (simp only: assms(1))
  show ?thesis
  proof (cases "max_f64 < \<sigma>")
    case True
    then have "round_f64 (a + b) = PosInf" by (simp add: round_f64_def \<sigma>_def)
    then have "f64_div (Finite a) (round_f64 (a + b)) = Inr (Finite 0)" by simp
    then show ?thesis using True unfolding \<sigma>_def by auto
  next
    case False
    then have "round_f64 (a + b) = Finite \<sigma>"
      using pos max_f64_pos by (simp add: round_f64_Finite_iff \<sigma>_def)
    then have d: "f64_div (Finite a) (round_f64 (a + b)) = Inr (round_f64 (a / \<sigma>))"
      using nz by simp
    have q: "0 \<le> a / \<sigma>" "a / \<sigma> \<le> 1" using assms(2) pos ale by simp_all
    have r: "0 \<le> round_real (a / \<sigma>)" "round_real (a / \<sigma>) \<le> 1"
      using round_real_unit [OF q] by simp_all
    have "(1::real) \<le> max_f64" by (simp add: max_f64_def)
    with r have "\<bar>round_real (a / \<sigma>)\<bar> \<le> max_f64" by linarith
    then have "round_f64 (a / \<sigma>) = Finite (round_real (a / \<sigma>))"
      by (simp add: round_f64_Finite_iff)
    with d r show ?thesis unfolding \<sigma>_def by auto
  qed
qed

lemma chance_error:
  assumes "round_real a = a" and "0 \<le> a" and "round_real b = b" and "0 \<le> b"
    and "\<not> (a = 0 \<and> b = 0)"
  shows "\<bar>round_real (a / round_real (a + b)) - a / (a + b)\<bar> \<le> 3 * 2 powi (- 54)"
proof -
  define S where "S = a + b"
  define \<sigma> where "\<sigma> = round_real S"
  define e :: real where "e = 2 powi (- 54)"
  have e2: "(2::real) powi (- 53) = 2 * e"
    unfolding e_def using two_powi_add [of "- 54" 1] by simp
  have Spos: "0 < S" unfolding S_def using assms(2,4,5) by linarith
  have nz: "\<sigma> \<noteq> 0"
    unfolding \<sigma>_def S_def using round_real_sum_eq_0 [OF assms(1,3,2,4)] assms(5) by blast
  have "0 \<le> \<sigma>" unfolding \<sigma>_def using Spos by (intro round_real_nonneg) simp
  with nz have pos: "0 < \<sigma>" by simp
  have "round_real a \<le> \<sigma>" unfolding \<sigma>_def S_def using assms(4) by (intro round_real_mono) simp
  then have ale: "a \<le> \<sigma>" by (simp only: assms(1))
  have q: "0 \<le> a / \<sigma>" "a / \<sigma> \<le> 1" using assms(2) pos ale by simp_all
  from multiple_add [OF fixed_multiple [OF assms(1)] fixed_multiple [OF assms(3)]]
  obtain m where "S = of_int m * 2 powi (- 1074)" unfolding S_def ..
  from round_real_error_rel [OF this] have "\<bar>\<sigma> - S\<bar> \<le> 2 * e * S"
    unfolding \<sigma>_def e2 using Spos by simp
  then have "\<bar>S - \<sigma>\<bar> / S \<le> 2 * e" using Spos by (simp add: pos_divide_le_eq abs_minus_commute)
  then have rel: "\<bar>(S - \<sigma>) / S\<bar> \<le> 2 * e" using Spos by simp
  have "a / \<sigma> - a / S = (a / \<sigma>) * ((S - \<sigma>) / S)"
    using nz Spos by (simp add: field_simps)
  then have "\<bar>a / \<sigma> - a / S\<bar> = \<bar>a / \<sigma>\<bar> * \<bar>(S - \<sigma>) / S\<bar>" by (simp only: abs_mult)
  also have "\<dots> \<le> 1 * (2 * e)"
    using q rel by (intro mult_mono) simp_all
  finally have 1: "\<bar>a / \<sigma> - a / S\<bar> \<le> 2 * e" by simp
  have 2: "\<bar>round_real (a / \<sigma>) - a / \<sigma>\<bar> \<le> e"
    unfolding e_def using q by (rule round_real_error_unit)
  from 1 2 have "\<bar>round_real (a / \<sigma>) - a / S\<bar> \<le> 3 * e" by linarith
  then show ?thesis unfolding \<sigma>_def S_def e_def .
qed

lemma inputs_equal_iff:
  assumes "is_f64 (Finite x)" and "is_f64 (Finite y)" and "f64_sub (Finite x) (Finite y) = Finite d"
  shows "\<bar>d\<bar> = 0 \<longleftrightarrow> x = y"
proof -
  have "round_real x = x" "round_real y = y" using assms(1,2) by (simp_all add: is_f64_Finite)
  from round_real_diff_eq_0 [OF this] distance_props(1) [OF assms(3)] show ?thesis by simp
qed

subsection \<open>Evaluating a rounding from its binade and its scaled value\<close>

text \<open>
  To round a given \<open>x\<close> it suffices to name its binade \<open>e\<close> and the integer nearest to
  \<open>x / 2 powi (e - 52)\<close>, or, half-way between two integers, the lower one.
\<close>

lemma rne_tie: "round_half_even (of_int n + 1/2) = (if even n then n else n + 1)"
proof -
  have "\<lfloor>real_of_int n + 1/2\<rfloor> = n" by linarith
  then show ?thesis by (simp add: round_half_even_def Let_def)
qed

lemma round_real_eval:
  assumes "2 powi e \<le> \<bar>x\<bar>" and "\<bar>x\<bar> < 2 powi (e + 1)" and "- 1022 \<le> e"
    and "\<bar>x / 2 powi (e - 52) - of_int n\<bar> < 1/2"
  shows "round_real x = of_int n * 2 powi (e - 52)"
proof -
  have b: "binade x = e" using assms(1,2) by (rule binade_eqI)
  have "0 < \<bar>x\<bar>" using assms(1) two_powi_pos [of e] by linarith
  then have nz: "x \<noteq> 0" by auto
  have m: "max e (- 1022) = e" using assms(3) by linarith
  have u: "ulp x = 2 powi (e - 52)" by (simp only: ulp_def b m)
  have "round_half_even (x / ulp x) = n" unfolding u using assms(4) by (rule rne_eqI)
  then show ?thesis using nz by (simp only: round_real_def u if_False)
qed

lemma round_real_eval_tie:
  assumes "2 powi e \<le> \<bar>x\<bar>" and "\<bar>x\<bar> < 2 powi (e + 1)" and "- 1022 \<le> e"
    and "x / 2 powi (e - 52) = of_int n + 1/2"
  shows "round_real x = of_int (if even n then n else n + 1) * 2 powi (e - 52)"
proof -
  have b: "binade x = e" using assms(1,2) by (rule binade_eqI)
  have "0 < \<bar>x\<bar>" using assms(1) two_powi_pos [of e] by linarith
  then have nz: "x \<noteq> 0" by auto
  have m: "max e (- 1022) = e" using assms(3) by linarith
  have u: "ulp x = 2 powi (e - 52)" by (simp only: ulp_def b m)
  have "round_half_even (x / ulp x) = (if even n then n else n + 1)"
    unfolding u assms(4) by (rule rne_tie)
  then show ?thesis using nz by (simp only: round_real_def u if_False)
qed

lemma pow_1001_le_max: "2 powi 1001 \<le> max_f64"
  by (simp add: max_f64_def)

lemma small_is_finite:
  assumes "\<bar>x\<bar> < 2 powi (e + 1)" and "e \<le> 1000"
  shows "\<bar>x\<bar> \<le> max_f64"
proof -
  have "(2::real) powi (e + 1) \<le> 2 powi 1001"
    using assms(2) by (intro power_int_increasing) simp_all
  with assms(1) pow_1001_le_max show ?thesis by linarith
qed

lemma round_f64_eval:
  assumes "2 powi e \<le> \<bar>x\<bar>" and "\<bar>x\<bar> < 2 powi (e + 1)" and "- 1022 \<le> e" and "e \<le> 1000"
    and "\<bar>x / 2 powi (e - 52) - of_int n\<bar> < 1/2"
  shows "round_f64 x = Finite (of_int n * 2 powi (e - 52))"
  using round_f64_small [OF small_is_finite [OF assms(2,4)]]
    round_real_eval [OF assms(1,2,3,5)] by simp

lemma round_f64_eval_tie:
  assumes "2 powi e \<le> \<bar>x\<bar>" and "\<bar>x\<bar> < 2 powi (e + 1)" and "- 1022 \<le> e" and "e \<le> 1000"
    and "x / 2 powi (e - 52) = of_int n + 1/2"
  shows "round_f64 x = Finite (of_int (if even n then n else n + 1) * 2 powi (e - 52))"
  using round_f64_small [OF small_is_finite [OF assms(2,4)]]
    round_real_eval_tie [OF assms(1,2,3,5)] by simp

lemma f64_div_Finite: "y \<noteq> 0 \<Longrightarrow> f64_div (Finite x) (Finite y) = Inr (round_f64 (x / y))"
  by simp

lemma chance_at_nearer_stop:
  "calculate_technical_chance_of_winning_f64 (Finite (5507057919343985 / 2 ^ 46)) (Finite (1445725849130107 / 2 ^ 44)) (Finite (2351218385440283 / 2 ^ 47))
     = Inr (Finite (8467924993853131 / 2 ^ 53))"
proof -
  have ds: "round_f64 (5507057919343985 / 2 ^ 46 - 2351218385440283 / 2 ^ 47) = Finite (8662897453247687 / 2 ^ 47)"
  proof -
    have "round_f64 (5507057919343985 / 2 ^ 46 - 2351218385440283 / 2 ^ 47) = Finite (of_int 8662897453247687 * 2 powi (5 - 52))"
      by (rule round_f64_eval) simp_all
    also have "of_int 8662897453247687 * 2 powi (5 - 52) = (8662897453247687 / 2 ^ 47 :: real)"
      by simp
    finally show ?thesis .
  qed
  have dt: "round_f64 (1445725849130107 / 2 ^ 44 - 5507057919343985 / 2 ^ 46) = Finite (275845477176443 / 2 ^ 46)"
  proof -
    have "round_f64 (1445725849130107 / 2 ^ 44 - 5507057919343985 / 2 ^ 46) = Finite (of_int 8827055269646176 * 2 powi (1 - 52))"
      by (rule round_f64_eval) simp_all
    also have "of_int 8827055269646176 * 2 powi (1 - 52) = (275845477176443 / 2 ^ 46 :: real)"
      by simp
    finally show ?thesis .
  qed
  have sum: "round_f64 (\<bar>8662897453247687 / 2 ^ 47\<bar> + \<bar>275845477176443 / 2 ^ 46\<bar>) = Finite (4607294203800286 / 2 ^ 46)"
  proof -
    have "round_f64 (\<bar>8662897453247687 / 2 ^ 47\<bar> + \<bar>275845477176443 / 2 ^ 46\<bar>) = Finite (of_int (if even (4607294203800286::int) then 4607294203800286 else 4607294203800286 + 1) * 2 powi (6 - 52))"
      by (rule round_f64_eval_tie) simp_all
    also have "of_int (if even (4607294203800286::int) then 4607294203800286 else 4607294203800286 + 1) * 2 powi (6 - 52) = (4607294203800286 / 2 ^ 46 :: real)"
      by simp
    finally show ?thesis .
  qed
  have quot: "round_f64 (\<bar>8662897453247687 / 2 ^ 47\<bar> / (4607294203800286 / 2 ^ 46)) = Finite (8467924993853131 / 2 ^ 53)"
  proof -
    have "round_f64 (\<bar>8662897453247687 / 2 ^ 47\<bar> / (4607294203800286 / 2 ^ 46)) = Finite (of_int 8467924993853131 * 2 powi (-1 - 52))"
      by (rule round_f64_eval) simp_all
    also have "of_int 8467924993853131 * 2 powi (-1 - 52) = (8467924993853131 / 2 ^ 53 :: real)"
      by simp
    finally show ?thesis .
  qed
  have nz: "(4607294203800286 / 2 ^ 46 :: real) \<noteq> 0" by simp
  have z: "round_real (\<bar>8662897453247687 / 2 ^ 47\<bar> + \<bar>275845477176443 / 2 ^ 46\<bar>) \<noteq> 0"
    using sum nz by (simp only: round_f64_Finite_iff) simp
  have "calculate_technical_chance_of_winning_f64 (Finite (5507057919343985 / 2 ^ 46)) (Finite (1445725849130107 / 2 ^ 44)) (Finite (2351218385440283 / 2 ^ 47))
      = (if round_real (\<bar>8662897453247687 / 2 ^ 47\<bar> + \<bar>275845477176443 / 2 ^ 46\<bar>) = 0 then Inr (Finite (1/2))
         else f64_div (Finite \<bar>8662897453247687 / 2 ^ 47\<bar>) (round_f64 (\<bar>8662897453247687 / 2 ^ 47\<bar> + \<bar>275845477176443 / 2 ^ 46\<bar>)))"
    by (rule tech_f64_unfold) (simp_all only: f64_sub_Finite ds dt)
  also have "\<dots> = f64_div (Finite \<bar>8662897453247687 / 2 ^ 47\<bar>) (Finite (4607294203800286 / 2 ^ 46))"
    using z by (simp only: sum if_False)
  also have "\<dots> = Inr (round_f64 (\<bar>8662897453247687 / 2 ^ 47\<bar> / (4607294203800286 / 2 ^ 46)))"
    using nz by (rule f64_div_Finite)
  also have "\<dots> = Inr (Finite (8467924993853131 / 2 ^ 53))" by (simp only: quot)
  finally show ?thesis .
qed

lemma chance_at_farther_stop:
  "calculate_technical_chance_of_winning_f64 (Finite (5507057919343985 / 2 ^ 46)) (Finite (1445725849130107 / 2 ^ 44)) (Finite (4702436770880565 / 2 ^ 48))
     = Inr (Finite (8467924993853130 / 2 ^ 53))"
proof -
  have ds: "round_f64 (5507057919343985 / 2 ^ 46 - 4702436770880565 / 2 ^ 48) = Finite (8662897453247688 / 2 ^ 47)"
  proof -
    have "round_f64 (5507057919343985 / 2 ^ 46 - 4702436770880565 / 2 ^ 48) = Finite (of_int (if even (8662897453247687::int) then 8662897453247687 else 8662897453247687 + 1) * 2 powi (5 - 52))"
      by (rule round_f64_eval_tie) simp_all
    also have "of_int (if even (8662897453247687::int) then 8662897453247687 else 8662897453247687 + 1) * 2 powi (5 - 52) = (8662897453247688 / 2 ^ 47 :: real)"
      by simp
    finally show ?thesis .
  qed
  have dt: "round_f64 (1445725849130107 / 2 ^ 44 - 5507057919343985 / 2 ^ 46) = Finite (275845477176443 / 2 ^ 46)"
  proof -
    have "round_f64 (1445725849130107 / 2 ^ 44 - 5507057919343985 / 2 ^ 46) = Finite (of_int 8827055269646176 * 2 powi (1 - 52))"
      by (rule round_f64_eval) simp_all
    also have "of_int 8827055269646176 * 2 powi (1 - 52) = (275845477176443 / 2 ^ 46 :: real)"
      by simp
    finally show ?thesis .
  qed
  have sum: "round_f64 (\<bar>8662897453247688 / 2 ^ 47\<bar> + \<bar>275845477176443 / 2 ^ 46\<bar>) = Finite (4607294203800287 / 2 ^ 46)"
  proof -
    have "round_f64 (\<bar>8662897453247688 / 2 ^ 47\<bar> + \<bar>275845477176443 / 2 ^ 46\<bar>) = Finite (of_int 4607294203800287 * 2 powi (6 - 52))"
      by (rule round_f64_eval) simp_all
    also have "of_int 4607294203800287 * 2 powi (6 - 52) = (4607294203800287 / 2 ^ 46 :: real)"
      by simp
    finally show ?thesis .
  qed
  have quot: "round_f64 (\<bar>8662897453247688 / 2 ^ 47\<bar> / (4607294203800287 / 2 ^ 46)) = Finite (8467924993853130 / 2 ^ 53)"
  proof -
    have "round_f64 (\<bar>8662897453247688 / 2 ^ 47\<bar> / (4607294203800287 / 2 ^ 46)) = Finite (of_int 8467924993853130 * 2 powi (-1 - 52))"
      by (rule round_f64_eval) simp_all
    also have "of_int 8467924993853130 * 2 powi (-1 - 52) = (8467924993853130 / 2 ^ 53 :: real)"
      by simp
    finally show ?thesis .
  qed
  have nz: "(4607294203800287 / 2 ^ 46 :: real) \<noteq> 0" by simp
  have z: "round_real (\<bar>8662897453247688 / 2 ^ 47\<bar> + \<bar>275845477176443 / 2 ^ 46\<bar>) \<noteq> 0"
    using sum nz by (simp only: round_f64_Finite_iff) simp
  have "calculate_technical_chance_of_winning_f64 (Finite (5507057919343985 / 2 ^ 46)) (Finite (1445725849130107 / 2 ^ 44)) (Finite (4702436770880565 / 2 ^ 48))
      = (if round_real (\<bar>8662897453247688 / 2 ^ 47\<bar> + \<bar>275845477176443 / 2 ^ 46\<bar>) = 0 then Inr (Finite (1/2))
         else f64_div (Finite \<bar>8662897453247688 / 2 ^ 47\<bar>) (round_f64 (\<bar>8662897453247688 / 2 ^ 47\<bar> + \<bar>275845477176443 / 2 ^ 46\<bar>)))"
    by (rule tech_f64_unfold) (simp_all only: f64_sub_Finite ds dt)
  also have "\<dots> = f64_div (Finite \<bar>8662897453247688 / 2 ^ 47\<bar>) (Finite (4607294203800287 / 2 ^ 46))"
    using z by (simp only: sum if_False)
  also have "\<dots> = Inr (round_f64 (\<bar>8662897453247688 / 2 ^ 47\<bar> / (4607294203800287 / 2 ^ 46)))"
    using nz by (rule f64_div_Finite)
  also have "\<dots> = Inr (Finite (8467924993853130 / 2 ^ 53))" by (simp only: quot)
  finally show ?thesis .
qed

lemma f64_add_NaN_right: "f64_add a NaN = NaN"
  by (cases a) simp_all

lemma round_f64_int:
  assumes "\<bar>n\<bar> < 2 ^ 53"
  shows "round_f64 (of_int n) = Finite (of_int n)"
proof -
  have "round_real (of_int n * 2 powi 0) = of_int n * 2 powi 0"
    using assms by (intro round_real_repr) simp_all
  then have r: "round_real (of_int n) = of_int n" by simp
  have "\<bar>real_of_int n\<bar> < 2 ^ 53" using assms by (simp flip: of_int_abs add: of_int_less_numeral_power_cancel_iff)
  moreover have "(2::real) ^ 53 \<le> max_f64" by (simp add: max_f64_def)
  ultimately have "\<bar>real_of_int n\<bar> \<le> max_f64" by linarith
  then show ?thesis using r by (simp add: round_f64_Finite_iff)
qed

lemma round_f64_numeral:
  "round_f64 5 = Finite 5" "round_f64 10 = Finite 10" "round_f64 20 = Finite 20"
  "round_f64 90 = Finite 90" "round_f64 95 = Finite 95" "round_f64 100 = Finite 100"
  "round_f64 110 = Finite 110"
  using round_f64_int [of 5] round_f64_int [of 10] round_f64_int [of 20] round_f64_int [of 90]
    round_f64_int [of 95] round_f64_int [of 100] round_f64_int [of 110]
  by simp_all

lemma is_f64_numeral:
  "is_f64 (Finite 90)" "is_f64 (Finite 95)" "is_f64 (Finite 100)" "is_f64 (Finite 110)"
  by (simp_all add: is_f64_def round_f64_numeral)

lemma f64_sub_numeral:
  "f64_sub (Finite 100) (Finite 95) = Finite 5"
  "f64_sub (Finite 100) (Finite 90) = Finite 10"
  "f64_sub (Finite 110) (Finite 100) = Finite 10"
  by (simp_all add: f64_sub_Finite round_f64_numeral)

lemma is_f64_repr:
  assumes "\<bar>n\<bar> < 2 ^ 53" and "- 1074 \<le> k" and "k \<le> 0"
  shows "is_f64 (Finite (of_int n * 2 powi k))"
proof -
  have r: "round_real (of_int n * 2 powi k) = of_int n * 2 powi k"
    using assms(1,2) by (rule round_real_repr)
  have "\<bar>real_of_int n\<bar> < 2 ^ 53" using assms(1) by (simp flip: of_int_abs add: of_int_less_numeral_power_cancel_iff)
  moreover have "(2::real) ^ 53 \<le> max_f64" by (simp add: max_f64_def)
  ultimately have n: "\<bar>real_of_int n\<bar> \<le> max_f64" by linarith
  have "(2::real) powi k \<le> 2 powi 0" using assms(3) by (intro power_int_increasing) simp_all
  then have "(2::real) powi k \<le> 1" by simp
  moreover have "0 < (2::real) powi k" by (rule two_powi_pos)
  ultimately have "\<bar>real_of_int n\<bar> * 2 powi k \<le> \<bar>real_of_int n\<bar> * 1"
    by (intro mult_left_mono) simp_all
  with n have "\<bar>of_int n * 2 powi k\<bar> \<le> max_f64" by (simp add: abs_mult)
  with r show ?thesis by (simp add: is_f64_Finite)
qed

lemma float_78_26: "round_f64 (7826 / 100) = Finite (5507057919343985 / 2 ^ 46)"
proof -
  have "round_f64 (7826 / 100) = Finite (of_int 5507057919343985 * 2 powi (6 - 52))"
    by (rule round_f64_eval) simp_all
  also have "of_int 5507057919343985 * 2 powi (6 - 52) = (5507057919343985 / 2 ^ 46 :: real)"
    by simp
  finally show ?thesis .
qed

lemma float_82_18: "round_f64 (8218 / 100) = Finite (1445725849130107 / 2 ^ 44)"
proof -
  have "round_f64 (8218 / 100) = Finite (of_int 5782903396520428 * 2 powi (6 - 52))"
    by (rule round_f64_eval) simp_all
  also have "of_int 5782903396520428 * 2 powi (6 - 52) = (1445725849130107 / 2 ^ 44 :: real)"
    by simp
  finally show ?thesis .
qed

lemma float_16_706411439601844: "round_f64 (16706411439601844 / 10 ^ 15) = Finite (2351218385440283 / 2 ^ 47)"
proof -
  have "round_f64 (16706411439601844 / 10 ^ 15) = Finite (of_int 4702436770880566 * 2 powi (4 - 52))"
    by (rule round_f64_eval) simp_all
  also have "of_int 4702436770880566 * 2 powi (4 - 52) = (2351218385440283 / 2 ^ 47 :: real)"
    by simp
  finally show ?thesis .
qed

lemma float_16_70641143960184: "round_f64 (1670641143960184 / 10 ^ 14) = Finite (4702436770880565 / 2 ^ 48)"
proof -
  have "round_f64 (1670641143960184 / 10 ^ 14) = Finite (of_int 4702436770880565 * 2 powi (4 - 52))"
    by (rule round_f64_eval) simp_all
  also have "of_int 4702436770880565 * 2 powi (4 - 52) = (4702436770880565 / 2 ^ 48 :: real)"
    by simp
  finally show ?thesis .
qed

lemma f64_eq_refl: "v \<noteq> NaN \<Longrightarrow> f64_eq v v"
  by (cases v) simp_all

lemma f64_neg_NaN_iff: "f64_neg v = NaN \<longleftrightarrow> v = NaN"
  by (cases v) simp_all

section \<open>Decision engine\<close>

text \<open>
  Claim C1. With the default thresholds (0.55 and 0), \<open>final_decision\<close> returns "Buy"
  exactly when the composite chance is at least 0.55 and the expectancy is positive,
  "Sell" exactly when the composite chance is below 0.55 and the expectancy is negative,
  and "Hold" in every other combination; the four boundary examples of the specification
  evaluate as it says.
\<close>

theorem final_decision_default_thresholds:
  "(final_decision c e 0.55 0 = ''Buy'' \<longleftrightarrow> c \<ge> 0.55 \<and> e > 0)
   \<and> (final_decision c e 0.55 0 = ''Sell'' \<longleftrightarrow> c < 0.55 \<and> e < 0)
   \<and> (final_decision c e 0.55 0 = ''Hold'' \<longleftrightarrow> \<not> (c \<ge> 0.55 \<and> e > 0) \<and> \<not> (c < 0.55 \<and> e < 0))
   \<and> final_decision 0.55 0.0001 0.55 0 = ''Buy''
   \<and> final_decision 0.55 0 0.55 0 = ''Hold''
   \<and> final_decision 0.54 (- 0.0001) 0.55 0 = ''Sell''
   \<and> final_decision 0.54 0.0001 0.55 0 = ''Hold''"
  by (simp add: final_decision_def)

section \<open>Expectancy\<close>

text \<open>
  Claim C6, as the specification states it, fails in its second special case. With the
  current price and the stop-loss both 100, the target \<open>inf\<close> (a value that
  \<open>float(input())\<close> accepts) and chance 0, the first product is \<open>0 * inf\<close>, which is NaN,
  and so is the expectancy; \<open>-(current - stop_loss)\<close> is zero.
\<close>

theorem zero_chance_infinite_target_counterexample:
  "calculate_expectancy (Finite 100) PosInf (Finite 100) (Finite 0) = NaN
   \<and> f64_neg (f64_sub (Finite 100) (Finite 100)) = Finite 0
   \<and> \<not> f64_eq (calculate_expectancy (Finite 100) PosInf (Finite 100) (Finite 0))
              (f64_neg (f64_sub (Finite 100) (Finite 100)))"
  by (simp add: calculate_expectancy_def f64_sub_def round_f64_zero round_f64_one)

text \<open>
  Claim C6, amended. On all floats, infinities and NaN included, \<open>calculate_expectancy\<close>
  returns \<open>chance * (target - current) - (1 - chance) * (current - stop_loss)\<close>, each
  operation in float arithmetic. With chance 1 it is the float \<open>target - current\<close>
  provided \<open>current - stop_loss\<close> is finite, and with chance 0 it is the float
  \<open>-(current - stop_loss)\<close> provided \<open>target - current\<close> is finite: the product of the
  zero factor with a finite difference is zero, and adding zero or multiplying by one
  does not round. The two are then also equal for \<open>==\<close>, unless that float is NaN, which
  is \<open>==\<close> to nothing.
\<close>

theorem calculate_expectancy_float_formula:
  "calculate_expectancy current target stop_loss p
     = f64_sub (f64_mul p (f64_sub target current))
               (f64_mul (f64_sub (Finite 1) p) (f64_sub current stop_loss))
   \<and> (is_finite (f64_sub current stop_loss) \<longrightarrow>
        calculate_expectancy current target stop_loss (Finite 1) = f64_sub target current)
   \<and> (is_finite (f64_sub target current) \<longrightarrow>
        calculate_expectancy current target stop_loss (Finite 0)
          = f64_neg (f64_sub current stop_loss))
   \<and> (is_finite (f64_sub current stop_loss) \<and> f64_sub target current \<noteq> NaN \<longrightarrow>
        f64_eq (calculate_expectancy current target stop_loss (Finite 1))
               (f64_sub target current))
   \<and> (is_finite (f64_sub target current) \<and> f64_sub current stop_loss \<noteq> NaN \<longrightarrow>
        f64_eq (calculate_expectancy current target stop_loss (Finite 0))
               (f64_neg (f64_sub current stop_loss)))"
proof -
  have 1: "calculate_expectancy current target stop_loss p
     = f64_sub (f64_mul p (f64_sub target current))
               (f64_mul (f64_sub (Finite 1) p) (f64_sub current stop_loss))"
    by (simp add: calculate_expectancy_def)
  have 2: "calculate_expectancy current target stop_loss (Finite 1) = f64_sub target current"
    if "is_finite (f64_sub current stop_loss)"
    using that by (rule expectancy_chance_one)
  have 3: "calculate_expectancy current target stop_loss (Finite 0)
          = f64_neg (f64_sub current stop_loss)"
    if "is_finite (f64_sub target current)"
    using that by (rule expectancy_chance_zero)
  have 4: "f64_eq (calculate_expectancy current target stop_loss (Finite 1))
               (f64_sub target current)"
    if "is_finite (f64_sub current stop_loss)" "f64_sub target current \<noteq> NaN"
    unfolding 2 [OF that(1)] using that(2) by (rule f64_eq_refl)
  have 5: "f64_eq (calculate_expectancy current target stop_loss (Finite 0))
               (f64_neg (f64_sub current stop_loss))"
    if "is_finite (f64_sub target current)" "f64_sub current stop_loss \<noteq> NaN"
    unfolding 3 [OF that(1)] using that(2) by (intro f64_eq_refl) (simp add: f64_neg_NaN_iff)
  from 1 2 3 4 5 show ?thesis by blast
qed

text \<open>At current 100, target 110 and stop-loss 95 both differences are finite; the
  expectancy is 10 with chance 1 and -5 with chance 0, also for \<open>==\<close>.\<close>

theorem calculate_expectancy_float_formula_witness:
  "is_finite (f64_sub (Finite 100) (Finite 95)) \<and> is_finite (f64_sub (Finite 110) (Finite 100))
   \<and> f64_sub (Finite 110) (Finite 100) \<noteq> NaN \<and> f64_sub (Finite 100) (Finite 95) \<noteq> NaN
   \<and> calculate_expectancy (Finite 100) (Finite 110) (Finite 95) (Finite 1) = Finite 10
   \<and> calculate_expectancy (Finite 100) (Finite 110) (Finite 95) (Finite 0) = Finite (- 5)
   \<and> f64_eq (calculate_expectancy (Finite 100) (Finite 110) (Finite 95) (Finite 1)) (Finite 10)
   \<and> f64_eq (calculate_expectancy (Finite 100) (Finite 110) (Finite 95) (Finite 0)) (Finite (- 5))"
proof -
  note th = calculate_expectancy_float_formula [of "Finite 100" "Finite 110" "Finite 95" "Finite 1"]
  have f: "is_finite (f64_sub (Finite 100) (Finite 95))" "is_finite (f64_sub (Finite 110) (Finite 100))"
    "f64_sub (Finite 110) (Finite 100) \<noteq> NaN" "f64_sub (Finite 100) (Finite 95) \<noteq> NaN"
    by (simp_all add: f64_sub_numeral)
  from th f have 1: "calculate_expectancy (Finite 100) (Finite 110) (Finite 95) (Finite 1)
      = f64_sub (Finite 110) (Finite 100)" by blast
  from th f have 2: "calculate_expectancy (Finite 100) (Finite 110) (Finite 95) (Finite 0)
      = f64_neg (f64_sub (Finite 100) (Finite 95))" by blast
  from th f have 3: "f64_eq (calculate_expectancy (Finite 100) (Finite 110) (Finite 95) (Finite 1))
      (f64_sub (Finite 110) (Finite 100))" by blast
  from th f have 4: "f64_eq (calculate_expectancy (Finite 100) (Finite 110) (Finite 95) (Finite 0))
      (f64_neg (f64_sub (Finite 100) (Finite 95)))" by blast
  from f 1 2 3 4 show ?thesis by (simp add: f64_sub_numeral)
qed

section \<open>Technical probability model\<close>

text \<open>
  Claim C3, as the specification states it, fails: \<open>float(input())\<close> accepts \<open>nan\<close> and
  \<open>inf\<close>. With a NaN target the sum of the distances is NaN, which is not \<open>== 0\<close>, and
  the quotient returned is NaN; with the stop-loss \<open>inf\<close> both the stop-loss distance and
  the sum are \<open>inf\<close> and the quotient is NaN again. NaN is neither \<open>>= 0\<close> nor \<open><= 1\<close>.
\<close>

theorem nan_target_gives_nan_chance_counterexample:
  "calculate_technical_chance_of_winning_f64 (Finite 100) NaN (Finite 95) = Inr NaN
   \<and> calculate_technical_chance_of_winning_f64 (Finite 100) (Finite 110) PosInf = Inr NaN
   \<and> \<not> f64_le (Finite 0) NaN \<and> \<not> f64_le NaN (Finite 1)"
  by (simp add: calculate_technical_chance_of_winning_f64_def Let_def f64_sub_def
      f64_add_NaN_right round_f64_numeral)

text \<open>
  Claim C3, amended. Let current, target and stop-loss be finite doubles whose two
  differences \<open>current - stop_loss\<close> and \<open>target - current\<close> do not overflow. Then the sum
  of the two distances is \<open>== 0\<close> exactly when the current price equals both the target and
  the stop-loss, in which case \<open>calculate_technical_chance_of_winning\<close> returns 0.5;
  otherwise it returns \<open>d_stop / (d_stop + d_target)\<close>, computed in float arithmetic from
  the two distances. It never raises, and the value returned is a finite number in [0,1].
\<close>

theorem technical_chance_f64_formula:
  assumes "is_f64 (Finite c)" and "is_f64 (Finite t)" and "is_f64 (Finite s)"
    and "f64_sub (Finite c) (Finite s) = Finite ds"
    and "f64_sub (Finite t) (Finite c) = Finite dt"
  shows "(f64_eq (f64_add (Finite \<bar>ds\<bar>) (Finite \<bar>dt\<bar>)) (Finite 0) \<longleftrightarrow> c = t \<and> c = s)
    \<and> calculate_technical_chance_of_winning_f64 (Finite c) (Finite t) (Finite s)
        = (if c = t \<and> c = s then Inr (Finite (1/2))
           else f64_div (Finite \<bar>ds\<bar>) (f64_add (Finite \<bar>ds\<bar>) (Finite \<bar>dt\<bar>)))
    \<and> (\<exists>v. calculate_technical_chance_of_winning_f64 (Finite c) (Finite t) (Finite s) = Inr (Finite v)
           \<and> 0 \<le> v \<and> v \<le> 1)"
proof -
  have va: "round_real \<bar>ds\<bar> = \<bar>ds\<bar>" and vb: "round_real \<bar>dt\<bar> = \<bar>dt\<bar>"
    using distance_props(2) [OF assms(4)] distance_props(2) [OF assms(5)] by simp_all
  have za: "\<bar>ds\<bar> = 0 \<longleftrightarrow> c = s" by (rule inputs_equal_iff [OF assms(1,3,4)])
  have zb: "\<bar>dt\<bar> = 0 \<longleftrightarrow> t = c" by (rule inputs_equal_iff [OF assms(2,1,5)])
  have zero: "round_real (\<bar>ds\<bar> + \<bar>dt\<bar>) = 0 \<longleftrightarrow> c = t \<and> c = s"
    using round_real_sum_eq_0 [OF va vb] za zb by auto
  have 1: "f64_eq (f64_add (Finite \<bar>ds\<bar>) (Finite \<bar>dt\<bar>)) (Finite 0) \<longleftrightarrow> c = t \<and> c = s"
    using zero by (simp add: f64_eq_round_zero)
  have 2: "calculate_technical_chance_of_winning_f64 (Finite c) (Finite t) (Finite s)
        = (if c = t \<and> c = s then Inr (Finite (1/2))
           else f64_div (Finite \<bar>ds\<bar>) (f64_add (Finite \<bar>ds\<bar>) (Finite \<bar>dt\<bar>)))"
    unfolding tech_f64_unfold [OF assms(4,5)] using zero by simp
  have 3: "\<exists>v. calculate_technical_chance_of_winning_f64 (Finite c) (Finite t) (Finite s) = Inr (Finite v)
           \<and> 0 \<le> v \<and> v \<le> 1"
  proof (cases "c = t \<and> c = s")
    case True
    have "(0::real) \<le> 1/2 \<and> (1/2::real) \<le> 1" by simp
    then show ?thesis unfolding 2 using True by (intro exI [of _ "1/2"]) simp
  next
    case False
    then have "\<not> (\<bar>ds\<bar> = 0 \<and> \<bar>dt\<bar> = 0)" using za zb by auto
    from chance_value [OF va _ vb _ this] False show ?thesis unfolding 2 by auto
  qed
  from 1 2 3 show ?thesis by blast
qed

text \<open>At current 100, target 110 and stop-loss 95 the distances are 5 and 10, and the value
  returned is the float quotient of 5 by 15.\<close>

theorem technical_chance_f64_formula_witness:
  "is_f64 (Finite 100) \<and> is_f64 (Finite 110) \<and> is_f64 (Finite 95)
   \<and> f64_sub (Finite 100) (Finite 95) = Finite 5
   \<and> f64_sub (Finite 110) (Finite 100) = Finite 10
   \<and> \<not> f64_eq (f64_add (Finite 5) (Finite 10)) (Finite 0)
   \<and> calculate_technical_chance_of_winning_f64 (Finite 100) (Finite 110) (Finite 95)
        = f64_div (Finite 5) (f64_add (Finite 5) (Finite 10))
   \<and> (\<exists>v. calculate_technical_chance_of_winning_f64 (Finite 100) (Finite 110) (Finite 95)
              = Inr (Finite v) \<and> 0 \<le> v \<and> v \<le> 1)"
proof -
  note th = technical_chance_f64_formula [OF is_f64_numeral(3) is_f64_numeral(4) is_f64_numeral(2)
      f64_sub_numeral(1) f64_sub_numeral(3)]
  from th have 1: "\<not> f64_eq (f64_add (Finite 5) (Finite 10)) (Finite 0)" by simp
  from th have 2: "calculate_technical_chance_of_winning_f64 (Finite 100) (Finite 110) (Finite 95)
        = f64_div (Finite 5) (f64_add (Finite 5) (Finite 10))" by simp
  from th have 3: "\<exists>v. calculate_technical_chance_of_winning_f64 (Finite 100) (Finite 110) (Finite 95)
              = Inr (Finite v) \<and> 0 \<le> v \<and> v \<le> 1" by blast
  from is_f64_numeral f64_sub_numeral 1 2 3 show ?thesis by blast
qed

text \<open>
  Claim C7, as the specification states it, fails by one unit in the last place. Take the
  doubles nearest to the decimals 78.26 (current), 82.18 (target), 16.706411439601844 and
  16.70641143960184 (two stop-losses); lemmas \<open>float_78_26\<close> to
  \<open>float_16_70641143960184\<close> give them as fractions. The target distance is the same in
  both calls. The second stop-loss is one unit in the last place below the first, and the
  stop-loss distance computed from it is larger (a tie rounded up to the even
  significand). With the first stop-loss the sum of the distances is a tie that rounds
  down; with the second it is exact. The quotients are \<open>8467924993853131 / 2 ^ 53\<close>
  (0.9401285298974583) and then \<open>8467924993853130 / 2 ^ 53\<close> (0.9401285298974582): the
  larger stop-loss distance has the smaller chance.
\<close>

theorem larger_stop_distance_smaller_chance_counterexample:
  "is_f64 (Finite (5507057919343985 / 2 ^ 46)) \<and> is_f64 (Finite (1445725849130107 / 2 ^ 44))
   \<and> is_f64 (Finite (2351218385440283 / 2 ^ 47)) \<and> is_f64 (Finite (4702436770880565 / 2 ^ 48))
   \<and> f64_sub (Finite (5507057919343985 / 2 ^ 46)) (Finite (2351218385440283 / 2 ^ 47))
        = Finite (8662897453247687 / 2 ^ 47)
   \<and> f64_sub (Finite (5507057919343985 / 2 ^ 46)) (Finite (4702436770880565 / 2 ^ 48))
        = Finite (8662897453247688 / 2 ^ 47)
   \<and> f64_sub (Finite (1445725849130107 / 2 ^ 44)) (Finite (5507057919343985 / 2 ^ 46))
        = Finite (275845477176443 / 2 ^ 46)
   \<and> \<bar>8662897453247687 / 2 ^ 47 :: real\<bar> < \<bar>8662897453247688 / 2 ^ 47\<bar>
   \<and> calculate_technical_chance_of_winning_f64
        (Finite (5507057919343985 / 2 ^ 46)) (Finite (1445725849130107 / 2 ^ 44)) (Finite (2351218385440283 / 2 ^ 47))
        = Inr (Finite (8467924993853131 / 2 ^ 53))
   \<and> calculate_technical_chance_of_winning_f64
        (Finite (5507057919343985 / 2 ^ 46)) (Finite (1445725849130107 / 2 ^ 44)) (Finite (4702436770880565 / 2 ^ 48))
        = Inr (Finite (8467924993853130 / 2 ^ 53))
   \<and> (8467924993853130 / 2 ^ 53 :: real) < 8467924993853131 / 2 ^ 53"
proof -
  have c: "is_f64 (Finite (5507057919343985 / 2 ^ 46))"
    using is_f64_repr [of 5507057919343985 "- 46"] by (simp add: power_int_minus field_simps)
  have t: "is_f64 (Finite (1445725849130107 / 2 ^ 44))"
    using is_f64_repr [of 1445725849130107 "- 44"] by (simp add: power_int_minus field_simps)
  have s1: "is_f64 (Finite (2351218385440283 / 2 ^ 47))"
    using is_f64_repr [of 2351218385440283 "- 47"] by (simp add: power_int_minus field_simps)
  have s2: "is_f64 (Finite (4702436770880565 / 2 ^ 48))"
    using is_f64_repr [of 4702436770880565 "- 48"] by (simp add: power_int_minus field_simps)
  have ds1: "f64_sub (Finite (5507057919343985 / 2 ^ 46)) (Finite (2351218385440283 / 2 ^ 47))
      = Finite (8662897453247687 / 2 ^ 47)"
  proof -
    have "round_f64 (5507057919343985 / 2 ^ 46 - 2351218385440283 / 2 ^ 47)
        = Finite (of_int 8662897453247687 * 2 powi (5 - 52))"
      by (rule round_f64_eval) simp_all
    also have "of_int 8662897453247687 * 2 powi (5 - 52) = (8662897453247687 / 2 ^ 47 :: real)"
      by simp
    finally show ?thesis by (simp only: f64_sub_Finite)
  qed
  have ds2: "f64_sub (Finite (5507057919343985 / 2 ^ 46)) (Finite (4702436770880565 / 2 ^ 48))
      = Finite (8662897453247688 / 2 ^ 47)"
  proof -
    have "round_f64 (5507057919343985 / 2 ^ 46 - 4702436770880565 / 2 ^ 48)
        = Finite (of_int (if even (8662897453247687::int) then 8662897453247687
                          else 8662897453247687 + 1) * 2 powi (5 - 52))"
      by (rule round_f64_eval_tie) simp_all
    also have "of_int (if even (8662897453247687::int) then 8662897453247687
                       else 8662897453247687 + 1) * 2 powi (5 - 52)
        = (8662897453247688 / 2 ^ 47 :: real)"
      by simp
    finally show ?thesis by (simp only: f64_sub_Finite)
  qed
  have dt: "f64_sub (Finite (1445725849130107 / 2 ^ 44)) (Finite (5507057919343985 / 2 ^ 46))
      = Finite (275845477176443 / 2 ^ 46)"
  proof -
    have "round_f64 (1445725849130107 / 2 ^ 44 - 5507057919343985 / 2 ^ 46)
        = Finite (of_int 8827055269646176 * 2 powi (1 - 52))"
      by (rule round_f64_eval) simp_all
    also have "of_int 8827055269646176 * 2 powi (1 - 52) = (275845477176443 / 2 ^ 46 :: real)"
      by simp
    finally show ?thesis by (simp only: f64_sub_Finite)
  qed
  have lt: "\<bar>8662897453247687 / 2 ^ 47 :: real\<bar> < \<bar>8662897453247688 / 2 ^ 47\<bar>" by simp
  have r: "(8467924993853130 / 2 ^ 53 :: real) < 8467924993853131 / 2 ^ 53" by simp
  from c t s1 s2 ds1 ds2 dt lt chance_at_nearer_stop chance_at_farther_stop r show ?thesis by blast
qed

text \<open>
  Claim C7, amended. Take two calls of \<open>calculate_technical_chance_of_winning\<close> on finite
  doubles, not all three equal in either call, whose differences do not overflow, with
  the same target distance \<open>|target - current|\<close> (as the code computes it), the second
  with a stop-loss distance \<open>|current - stop_loss|\<close> at least as large as the first, and
  the larger sum of distances finite. Then both calls return finite numbers, each within
  \<open>3 * 2 powi (- 54)\<close> of the exact quotient \<open>d_stop / (d_stop + d_target)\<close> of its
  computed distances; the exact quotients are monotone in the stop-loss distance; and
  the value returned can decrease by at most \<open>3 * 2 powi (- 53)\<close>.
\<close>

theorem technical_chance_f64_monotone_up_to_rounding:
  assumes "is_f64 (Finite c1)" and "is_f64 (Finite t1)" and "is_f64 (Finite s1)"
    and "is_f64 (Finite c2)" and "is_f64 (Finite t2)" and "is_f64 (Finite s2)"
    and "f64_sub (Finite c1) (Finite s1) = Finite ds1"
    and "f64_sub (Finite t1) (Finite c1) = Finite dt1"
    and "f64_sub (Finite c2) (Finite s2) = Finite ds2"
    and "f64_sub (Finite t2) (Finite c2) = Finite dt2"
    and "\<not> (c1 = t1 \<and> c1 = s1)" and "\<not> (c2 = t2 \<and> c2 = s2)"
    and "\<bar>dt1\<bar> = \<bar>dt2\<bar>" and "\<bar>ds1\<bar> \<le> \<bar>ds2\<bar>"
    and "round_real (\<bar>ds2\<bar> + \<bar>dt2\<bar>) \<le> max_f64"
  shows "\<exists>r1 r2. calculate_technical_chance_of_winning_f64 (Finite c1) (Finite t1) (Finite s1) = Inr (Finite r1)
           \<and> calculate_technical_chance_of_winning_f64 (Finite c2) (Finite t2) (Finite s2) = Inr (Finite r2)
           \<and> \<bar>r1 - \<bar>ds1\<bar> / (\<bar>ds1\<bar> + \<bar>dt1\<bar>)\<bar> \<le> 3 * 2 powi (- 54)
           \<and> \<bar>r2 - \<bar>ds2\<bar> / (\<bar>ds2\<bar> + \<bar>dt2\<bar>)\<bar> \<le> 3 * 2 powi (- 54)
           \<and> \<bar>ds1\<bar> / (\<bar>ds1\<bar> + \<bar>dt1\<bar>) \<le> \<bar>ds2\<bar> / (\<bar>ds2\<bar> + \<bar>dt2\<bar>)
           \<and> r1 \<le> r2 + 3 * 2 powi (- 53)"
proof -
  define a1 a2 b where "a1 = \<bar>ds1\<bar>" and "a2 = \<bar>ds2\<bar>" and "b = \<bar>dt1\<bar>"
  have b2: "\<bar>dt2\<bar> = b" using assms(13) by (simp add: b_def)
  have va1: "round_real a1 = a1" and va2: "round_real a2 = a2" and vb: "round_real b = b"
    unfolding a1_def a2_def b_def
    using distance_props(2) [OF assms(7)] distance_props(2) [OF assms(9)]
      distance_props(2) [OF assms(8)] by simp_all
  have nn: "0 \<le> a1" "0 \<le> a2" "0 \<le> b" by (simp_all add: a1_def a2_def b_def)
  have le: "a1 \<le> a2" using assms(14) by (simp add: a1_def a2_def)
  have n1: "\<not> (a1 = 0 \<and> b = 0)"
    unfolding a1_def b_def
    using inputs_equal_iff [OF assms(1,3,7)] inputs_equal_iff [OF assms(2,1,8)] assms(11) by auto
  have n2: "\<not> (a2 = 0 \<and> b = 0)"
    unfolding a2_def b2 [symmetric]
    using inputs_equal_iff [OF assms(4,6,9)] inputs_equal_iff [OF assms(5,4,10)] assms(12) by auto
  have z1: "round_real (a1 + b) \<noteq> 0" using round_real_sum_eq_0 [OF va1 vb nn(1,3)] n1 by blast
  have z2: "round_real (a2 + b) \<noteq> 0" using round_real_sum_eq_0 [OF va2 vb nn(2,3)] n2 by blast
  have f2: "round_real (a2 + b) \<le> max_f64" using assms(15) by (simp add: a2_def b2)
  have "round_real (a1 + b) \<le> round_real (a2 + b)" using le by (intro round_real_mono) simp
  with f2 have f1: "round_real (a1 + b) \<le> max_f64" by linarith
  define r1 r2 where "r1 = round_real (a1 / round_real (a1 + b))"
    and "r2 = round_real (a2 / round_real (a2 + b))"
  from chance_value [OF va1 nn(1) vb nn(3) n1] f1
  have d1: "f64_div (Finite a1) (round_f64 (a1 + b)) = Inr (Finite r1)" unfolding r1_def by auto
  from chance_value [OF va2 nn(2) vb nn(3) n2] f2
  have d2: "f64_div (Finite a2) (round_f64 (a2 + b)) = Inr (Finite r2)" unfolding r2_def by auto
  have t1: "calculate_technical_chance_of_winning_f64 (Finite c1) (Finite t1) (Finite s1) = Inr (Finite r1)"
    unfolding tech_f64_unfold [OF assms(7,8)] using z1 d1 by (simp add: a1_def b_def)
  have t2: "calculate_technical_chance_of_winning_f64 (Finite c2) (Finite t2) (Finite s2) = Inr (Finite r2)"
    unfolding tech_f64_unfold [OF assms(9,10)] using z2 d2 by (simp add: a2_def b2)
  have e1: "\<bar>r1 - a1 / (a1 + b)\<bar> \<le> 3 * 2 powi (- 54)"
    unfolding r1_def by (rule chance_error [OF va1 nn(1) vb nn(3) n1])
  have e2: "\<bar>r2 - a2 / (a2 + b)\<bar> \<le> 3 * 2 powi (- 54)"
    unfolding r2_def by (rule chance_error [OF va2 nn(2) vb nn(3) n2])
  have mono: "a1 / (a1 + b) \<le> a2 / (a2 + b)"
    using nn(1) le nn(3) n1 nn by (intro ratio_mono) linarith+
  have "(2::real) powi (- 53) = 2 * 2 powi (- 54)"
    using two_powi_add [of "- 54" 1] by simp
  with e1 e2 mono have fin: "r1 \<le> r2 + 3 * 2 powi (- 53)" by linarith
  from t1 t2 e1 e2 mono fin show ?thesis
    unfolding a1_def a2_def b2 [symmetric] unfolding b_def [symmetric]
    by (auto simp: a1_def a2_def b_def b2)
qed

text \<open>At current 100 and target 110, moving the stop-loss from 95 to 90 takes the
  stop-loss distance from 5 to 10 with the target distance 10 in both calls; the values
  returned are within \<open>3 * 2 powi (- 54)\<close> of 1/3 and 1/2.\<close>

theorem technical_chance_f64_monotone_up_to_rounding_witness:
  "is_f64 (Finite 100) \<and> is_f64 (Finite 110) \<and> is_f64 (Finite 95) \<and> is_f64 (Finite 90)
   \<and> f64_sub (Finite 100) (Finite 95) = Finite 5
   \<and> f64_sub (Finite 100) (Finite 90) = Finite 10
   \<and> f64_sub (Finite 110) (Finite 100) = Finite 10
   \<and> round_real 20 \<le> max_f64
   \<and> (\<exists>r1 r2. calculate_technical_chance_of_winning_f64 (Finite 100) (Finite 110) (Finite 95) = Inr (Finite r1)
           \<and> calculate_technical_chance_of_winning_f64 (Finite 100) (Finite 110) (Finite 90) = Inr (Finite r2)
           \<and> \<bar>r1 - 1 / 3\<bar> \<le> 3 * 2 powi (- 54)
           \<and> \<bar>r2 - 1 / 2\<bar> \<le> 3 * 2 powi (- 54)
           \<and> r1 \<le> r2 + 3 * 2 powi (- 53))"
proof -
  have r: "round_real 20 \<le> max_f64"
    using round_f64_numeral(3) by (simp add: round_f64_Finite_iff)
  show ?thesis
    using technical_chance_f64_monotone_up_to_rounding [where ?c1.0 = 100 and ?t1.0 = 110 and ?s1.0 = 95
        and ?c2.0 = 100 and ?t2.0 = 110 and ?s2.0 = 90
        and ?ds1.0 = 5 and ?dt1.0 = 10 and ?ds2.0 = 10 and ?dt2.0 = 10] r
    by (simp add: is_f64_numeral f64_sub_numeral)
qed

section \<open>Composite scorer\<close>


section \<open>Fundamental scorer\<close>

text \<open>
  Claim C2, as the specification states it, fails: it lists the triggers of the neutral
  score (fewer than two periods, a missing field, a zero earlier revenue, an unavailable
  latest net income) and says that in every other case the score is the mean of the
  clamped growth and the clamped margin. With a latest revenue of 0, an earlier revenue
  of 100 and a latest net income of -5, none of the listed triggers holds, and the source
  returns 0.5 because \<open>not revenue_latest\<close> is true for zero. The mean the claim asks for
  is not 0.5: the growth \<open>(0 - 100) / 100 = -1\<close> clamps to 0, and the margin \<open>-5 / 0\<close>
  (0 in HOL, undefined in arithmetic, a negative quantity by its numerator) clamps to 0.
\<close>

theorem neutral_score_beyond_listed_triggers_counterexample:
  "get_fundamental_score
      (JsonList [\<lparr>revenue = Some 0, netIncome = Some (- 5)\<rparr>, \<lparr>revenue = Some 100, netIncome = Some 1\<rparr>])
     = 1/2
   \<and> get_fundamental_score
      (JsonList [\<lparr>revenue = Some 0, netIncome = Some (- 5)\<rparr>, \<lparr>revenue = Some 100, netIncome = Some 1\<rparr>])
     \<noteq> (max 0 (min 1 ((0 - 100) / 100)) + max 0 (min 1 ((- 5) / 0))) / 2"
  by (simp add: get_fundamental_score_def fundamental_score_body_def py_not_simps)

text \<open>
  Claim C2, amended. The fundamental score is exactly 0.5 when the request fails or
  returns nothing, when fewer than two periods are available, when the revenue of either
  period or the latest net income is missing, when the earlier period's revenue is zero,
  or when the latest period's revenue is zero. In every other case it is the arithmetic
  mean of \<open>revenue_growth = (revenue_latest - revenue_previous) / revenue_previous\<close> and
  \<open>profit_margin = net_income_latest / revenue_latest\<close>, each clamped to [0,1]. The
  score always lies in [0,1].
\<close>

theorem fundamental_score_characterisation:
  "get_fundamental_score RequestFailed = 1/2
   \<and> get_fundamental_score JsonNull = 1/2
   \<and> (length data < 2 \<longrightarrow> get_fundamental_score (JsonList data) = 1/2)
   \<and> (2 \<le> length data
        \<and> (revenue (data ! 0) = None \<or> revenue (data ! 1) = None \<or> netIncome (data ! 0) = None)
      \<longrightarrow> get_fundamental_score (JsonList data) = 1/2)
   \<and> (2 \<le> length data \<and> (revenue (data ! 1) = Some 0 \<or> revenue (data ! 0) = Some 0)
      \<longrightarrow> get_fundamental_score (JsonList data) = 1/2)
   \<and> (2 \<le> length data \<and> revenue (data ! 0) = Some rl \<and> revenue (data ! 1) = Some rp
        \<and> netIncome (data ! 0) = Some ni \<and> rl \<noteq> 0 \<and> rp \<noteq> 0
      \<longrightarrow> get_fundamental_score (JsonList data)
            = (max 0 (min 1 ((rl - rp) / rp)) + max 0 (min 1 (ni / rl))) / 2)
   \<and> 0 \<le> get_fundamental_score resp \<and> get_fundamental_score resp \<le> 1"
proof -
  have a: "get_fundamental_score (JsonList data) = 1/2" if "length data < 2"
    using fundamental_body_short [OF that] by (simp add: get_fundamental_score_def)
  have b: "get_fundamental_score (JsonList data) = 1/2"
    if "2 \<le> length data"
      "revenue (data ! 0) = None \<or> revenue (data ! 1) = None \<or> netIncome (data ! 0) = None"
  proof -
    have "py_not (revenue (data ! 0)) \<or> py_not (revenue (data ! 1)) \<or> netIncome (data ! 0) = None"
      using that(2) by (auto simp: py_not_simps)
    from fundamental_body_fallback [OF that(1) this] show ?thesis
      by (simp add: get_fundamental_score_def)
  qed
  have c: "get_fundamental_score (JsonList data) = 1/2"
    if "2 \<le> length data" "revenue (data ! 1) = Some 0 \<or> revenue (data ! 0) = Some 0"
  proof -
    have "py_not (revenue (data ! 0)) \<or> py_not (revenue (data ! 1)) \<or> netIncome (data ! 0) = None"
      using that(2) by (auto simp: py_not_simps)
    from fundamental_body_fallback [OF that(1) this] show ?thesis
      by (simp add: get_fundamental_score_def)
  qed
  have d: "get_fundamental_score (JsonList data)
            = (max 0 (min 1 ((rl - rp) / rp)) + max 0 (min 1 (ni / rl))) / 2"
    if "2 \<le> length data" "revenue (data ! 0) = Some rl" "revenue (data ! 1) = Some rp"
       "netIncome (data ! 0) = Some ni" "rl \<noteq> 0" "rp \<noteq> 0"
    using fundamental_body_mean [OF that] by (simp add: get_fundamental_score_def add.commute)
  have e: "get_fundamental_score RequestFailed = 1/2" "get_fundamental_score JsonNull = 1/2"
    by (simp_all add: get_fundamental_score_def)
  from a b c d e fundamental_score_bounds [of resp] show ?thesis by blast
qed

text \<open>Revenue 120 after 100 with net income 30: growth 0.2, margin 0.25, score 0.225. One
  period only, a missing net income, and a zero earlier revenue each give 0.5.\<close>

theorem fundamental_score_characterisation_witness:
  "get_fundamental_score
     (JsonList [\<lparr>revenue = Some 120, netIncome = Some 30\<rparr>, \<lparr>revenue = Some 100, netIncome = Some 80\<rparr>])
     = 9/40
   \<and> get_fundamental_score (JsonList [\<lparr>revenue = Some 120, netIncome = Some 30\<rparr>]) = 1/2
   \<and> get_fundamental_score
     (JsonList [\<lparr>revenue = Some 120, netIncome = None\<rparr>, \<lparr>revenue = Some 100, netIncome = Some 80\<rparr>])
     = 1/2
   \<and> get_fundamental_score
     (JsonList [\<lparr>revenue = Some 120, netIncome = Some 30\<rparr>, \<lparr>revenue = Some 0, netIncome = Some 80\<rparr>])
     = 1/2"
  using fundamental_score_characterisation
      [where data = "[\<lparr>revenue = Some 120, netIncome = Some 30\<rparr>, \<lparr>revenue = Some 100, netIncome = Some 80\<rparr>]"
         and rl = 120 and rp = 100 and ni = 30]
    fundamental_score_characterisation
      [where data = "[\<lparr>revenue = Some 120, netIncome = Some 30\<rparr>]"]
    fundamental_score_characterisation
      [where data = "[\<lparr>revenue = Some 120, netIncome = None\<rparr>, \<lparr>revenue = Some 100, netIncome = Some 80\<rparr>]"]
    fundamental_score_characterisation
      [where data = "[\<lparr>revenue = Some 120, netIncome = Some 30\<rparr>, \<lparr>revenue = Some 0, netIncome = Some 80\<rparr>]"]
  by simp

text \<open>
  Claim C9. Whenever the latest period's revenue is 0, the fundamental score is the
  neutral 0.5, whatever the latest net income and the earlier period are (so also when
  the earlier revenue is nonzero and the net income is present): a zero latest revenue is
  treated like a missing one.
\<close>

theorem fundamental_score_zero_latest_revenue:
  "get_fundamental_score (JsonList (latest\<lparr>revenue := Some 0\<rparr> # previous # rest)) = 1/2
   \<and> get_fundamental_score (JsonList (latest\<lparr>revenue := Some 0\<rparr> # previous # rest))
       = get_fundamental_score (JsonList (latest\<lparr>revenue := None\<rparr> # previous # rest))
   \<and> get_fundamental_score
       (JsonList [\<lparr>revenue = Some 0, netIncome = Some 25\<rparr>, \<lparr>revenue = Some 100, netIncome = Some 10\<rparr>])
       = 1/2"
proof -
  have z: "fundamental_score_body (l # previous # rest) = Inr (1/2)"
    if "py_not (revenue l)" for l previous rest
    using fundamental_body_fallback [of "l # previous # rest"] that by simp
  show ?thesis
    by (simp add: get_fundamental_score_def z py_not_simps)
qed

section \<open>Technical signal evaluator\<close>

text \<open>
  Claim C4. On a quote whose fields are numbers, \<open>evaluate_stock_for_trade\<close> returns what
  the four rules of the specification give when folded left-to-right over "Hold", in the
  order market cap, 50-day average, 200-day average, day range. The day-range rule comes
  last: a ratio below 0.3 gives "Buy" whatever the earlier rules said, and a ratio in
  [0.3,0.7] leaves the verdict of the first three rules standing.
\<close>

theorem evaluate_stock_for_trade_is_rule_cascade:
  "evaluate_stock_for_trade cp (Some mc) (Some dh) (Some dl) (Some a50) (Some a200)
     = Inr (spec_technical_recommendation cp mc dh dl a50 a200)
   \<and> spec_technical_recommendation cp mc dh dl a50 a200
       = spec_day_range_rule (spec_range_ratio cp dh dl)
           (spec_average_rule cp a200 (spec_average_rule cp a50 (spec_market_cap_rule mc ''Hold'')))
   \<and> (spec_range_ratio cp dh dl < 0.3 \<longrightarrow>
        evaluate_stock_for_trade cp (Some mc) (Some dh) (Some dl) (Some a50) (Some a200) = Inr ''Buy'')
   \<and> (0.3 \<le> spec_range_ratio cp dh dl \<and> spec_range_ratio cp dh dl \<le> 0.7 \<longrightarrow>
        evaluate_stock_for_trade cp (Some mc) (Some dh) (Some dl) (Some a50) (Some a200)
          = Inr (spec_average_rule cp a200 (spec_average_rule cp a50 (spec_market_cap_rule mc ''Hold''))))"
  unfolding evaluate_numbers
  by (simp add: spec_technical_recommendation_def spec_rule_cascade_def spec_day_range_rule_def
      spec_average_rule_def spec_market_cap_rule_def spec_range_ratio_def Let_def)

text \<open>A small cap below both averages is "Sell" after three rules; near the day's low
  (ratio 1/11) the last rule turns it into "Buy", and in mid-range (ratio 1/2) a small
  cap above both averages stays "Sell".\<close>

theorem evaluate_stock_for_trade_is_rule_cascade_witness:
  "spec_range_ratio 100 200 90 < 0.3
   \<and> spec_average_rule 100 130 (spec_average_rule 100 120 (spec_market_cap_rule 500000000 ''Hold'')) = ''Sell''
   \<and> evaluate_stock_for_trade 100 (Some 500000000) (Some 200) (Some 90) (Some 120) (Some 130) = Inr ''Buy''
   \<and> 0.3 \<le> spec_range_ratio 100 110 90 \<and> spec_range_ratio 100 110 90 \<le> 0.7
   \<and> evaluate_stock_for_trade 100 (Some 500000000) (Some 110) (Some 90) (Some 95) (Some 90) = Inr ''Sell''"
  using evaluate_stock_for_trade_is_rule_cascade [of 100 500000000 200 90 120 130]
    evaluate_stock_for_trade_is_rule_cascade [of 100 500000000 110 90 95 90]
  by (simp add: spec_range_ratio_def spec_average_rule_def spec_market_cap_rule_def
      spec_day_range_rule_def)

text \<open>
  Claim C8. Neither degenerate geometry divides by zero.
  \<open>calculate_technical_chance_of_winning\<close> always returns a value, and returns 0.5 when
  the current price equals both the target and the stop-loss. The day-range ratio of
  \<open>evaluate_stock_for_trade\<close> is 0.5 when the day's high equals the day's low, and neither
  the ratio nor the evaluator ever raises \<open>ZeroDivisionError\<close>, on any input.
\<close>

theorem no_division_by_zero:
  "(\<exists>p. calculate_technical_chance_of_winning c t s = Inr p)
   \<and> calculate_technical_chance_of_winning c c c = Inr (1/2)
   \<and> price_to_day_low_ratio cp dh dl \<noteq> Inl ZeroDivisionError
   \<and> price_to_day_low_ratio cp (Some h) (Some h) = Inr (1/2)
   \<and> evaluate_stock_for_trade cp mc dh dl a50 a200 \<noteq> Inl ZeroDivisionError"
proof -
  have "price_to_day_low_ratio cp dh dl \<noteq> Inl ZeroDivisionError"
    using day_low_ratio_cases [of cp dh dl] by auto
  moreover have "evaluate_stock_for_trade cp mc dh dl a50 a200 \<noteq> Inl ZeroDivisionError"
    using evaluate_cases [of cp mc dh dl a50 a200] by auto
  ultimately show ?thesis
    by (simp add: technical_chance_value day_low_ratio_numbers)
qed

text \<open>
  Claim C10. \<open>evaluate_stock_for_trade\<close> returns a recommendation only when the market
  cap is a number, and then the recommendation is one of "Buy", "Sell", "Hold". With an
  absent market cap the first comparison raises \<open>TypeError\<close>, whatever the other fields
  are; and \<open>get_current_price\<close> does hand on an absent market cap as \<open>None\<close> when the
  quote has a price. On a quote whose fields are all numbers a recommendation is always
  returned.
\<close>

theorem evaluate_stock_for_trade_needs_market_cap:
  "evaluate_stock_for_trade cp None dh dl a50 a200 = Inl TypeError
   \<and> (evaluate_stock_for_trade cp mc dh dl a50 a200 = Inr r \<longrightarrow>
        mc \<noteq> None \<and> r \<in> {''Buy'', ''Sell'', ''Hold''})
   \<and> (\<exists>r'. evaluate_stock_for_trade cp (Some m) (Some h) (Some l) (Some a) (Some b) = Inr r'
          \<and> r' \<in> {''Buy'', ''Sell'', ''Hold''})
   \<and> get_current_price (JsonList (q\<lparr>price := Some p, marketCap := None\<rparr> # rest))
       = Some (p, None, dayHigh q, dayLow q, priceAvg50 q, priceAvg200 q)"
proof -
  have 1: "evaluate_stock_for_trade cp None dh dl a50 a200 = Inl TypeError"
    by (simp add: evaluate_stock_for_trade_def then_res_simps as_number_simps)
  have 2: "evaluate_stock_for_trade cp mc dh dl a50 a200 = Inr r \<longrightarrow>
        mc \<noteq> None \<and> r \<in> {''Buy'', ''Sell'', ''Hold''}"
    using evaluate_cases [of cp mc dh dl a50 a200] by auto
  have 3: "\<exists>r'. evaluate_stock_for_trade cp (Some m) (Some h) (Some l) (Some a) (Some b) = Inr r'
          \<and> r' \<in> {''Buy'', ''Sell'', ''Hold''}"
    unfolding evaluate_numbers by (simp add: Let_def)
  have 4: "get_current_price (JsonList (q\<lparr>price := Some p, marketCap := None\<rparr> # rest))
       = Some (p, None, dayHigh q, dayLow q, priceAvg50 q, priceAvg200 q)"
    by (simp add: get_current_price_def)
  from 1 2 3 4 show ?thesis by blast
qed

text \<open>The specification's example quote (price 100, market cap 5e9, day range 90 to 110,
  averages 95 and 90) is evaluated to "Hold".\<close>

theorem evaluate_stock_for_trade_needs_market_cap_witness:
  "evaluate_stock_for_trade 100 (Some 5000000000) (Some 110) (Some 90) (Some 95) (Some 90) = Inr ''Hold''
   \<and> Some (5000000000::real) \<noteq> None \<and> ''Hold'' \<in> {''Buy'', ''Sell'', ''Hold''}"
  using evaluate_stock_for_trade_needs_market_cap
      [where cp = 100 and mc = "Some 5000000000" and dh = "Some 110" and dl = "Some 90"
         and ?a50.0 = "Some 95" and ?a200.0 = "Some 90" and r = "''Hold''"]
  by (simp add: evaluate_numbers)

end
